theory Spec2Isabelle
  imports Complex_Main "HOL-Library.Log_Nat"
begin

section \<open>Numbers, constants and data\<close>

text \<open>
  The simulation core of the platformer (the file with the gravity zones, 3249 lines):
  level parser, collision test, physics stepper, spike triggers, gravity zones and the
  frame loop. The value of a JavaScript number is a \<^typ>\<open>real\<close>. Positions, velocities
  and the zone timers are computed exactly: the properties about them concern the control
  flow and the formulas. The spike animation is the one place where a property depends on
  the rounding of an accumulated value (whether \<open>moveTimer\<close> has reached 1), so its
  arithmetic is rounded after every operation as binary64 arithmetic does, with \<open>fl\<close>
  below. Indices and counters are \<^typ>\<open>nat\<close>, grid coordinates of the flood fill are
  \<^typ>\<open>int\<close> (the source computes \<open>row - 1\<close> and tests \<open>newRow >= 0\<close>).

  Rendering and audio (canvas drawing, \<open>playSound\<close>, the particle list fed by
  \<open>Math.random\<close>, the trail history, the DOM text of \<open>updateStats\<close>) and the
  \<open>localStorage\<close> write of \<open>saveProgress\<close> are not part of the model.
\<close>

text \<open>
  Rounding to the nearest binary64 number, ties to the even significand: the result of
  every arithmetic operation on doubles. \<open>ilog2 a\<close> is the binary exponent
  \<open>\<lfloor>log 2 a\<rfloor>\<close> of a positive number, computed on integers; a significand has 53
  bits, and below \<open>2 ^ - 1022\<close> the spacing stays at \<open>2 ^ - 1074\<close>. Overflow to infinity
  (at \<open>2 ^ 1024\<close>) is not modelled.
\<close>

definition roundTiesToEven :: "real \<Rightarrow> int" where
  "roundTiesToEven r =
     (let n = \<lfloor>r\<rfloor>; d = r - of_int n
      in if d < 1 / 2 then n else if d > 1 / 2 then n + 1 else if even n then n else n + 1)"

definition ilog2 :: "real \<Rightarrow> int" where
  "ilog2 a = (if 1 \<le> a then int (floorlog 2 (nat \<lfloor>a\<rfloor>)) - 1
              else - int (floorlog 2 (nat (\<lceil>1 / a\<rceil> - 1))))"

definition fl :: "real \<Rightarrow> real" where
  "fl v = (if v = 0 then 0
           else let e = max (ilog2 \<bar>v\<bar> - 52) (- 1074)
                in of_int (roundTiesToEven (v / 2 powi e)) * 2 powi e)"

definition TILE_SIZE :: real where
  "TILE_SIZE = 60"

definition GRAVITY :: real where
  "GRAVITY = 2100 * 1.5"

definition JUMP_FORCE :: real where
  "JUMP_FORCE = - 840 * 1.25"

definition MOVE_SPEED :: real where
  "MOVE_SPEED = 380"

definition DEATH_FLASH_DURATION :: real where
  "DEATH_FLASH_DURATION = 0.2"

definition LEVEL_COMPLETE_DURATION :: real where
  "LEVEL_COMPLETE_DURATION = 1.5"

text \<open>Every object with a bounding box: \<open>{ x, y, width, height }\<close>.\<close>

record rect =
  x :: real
  y :: real
  width :: real
  height :: real

text \<open>The object built by \<open>resetPlayer\<close> (without \<open>gravityFlipParticles\<close>).\<close>

record player = rect +
  vx :: real
  vy :: real
  onGround :: bool
  hasJumped :: bool
  gravityScale :: real
  currentGravityZone :: "nat set"
  gravityFlipTimer :: real
  gravityFlipCooldown :: real
  gravityLocked :: bool
  lastGravityZone :: "nat option"
  hasBeenFlipped :: bool
  gravityIndicatorAlpha :: real

text \<open>The object pushed onto \<open>spikes\<close> by \<open>parseLevel\<close>.\<close>

record spike = rect +
  originalX :: real
  moveDistance :: real
  triggerX :: real
  triggerY :: real
  triggerHeight :: real
  triggerOffset :: real
  triggerLength :: "real option"
  triggered :: bool
  moved :: bool
  moving :: bool
  moveTimer :: real

text \<open>The \<open>visual\<close> and \<open>sound\<close> sub-objects of a gravity zone.\<close>

record zone_visual =
  color :: string
  secondaryColor :: string
  alpha :: real
  stripeAngle :: real
  stripeWidth :: real
  stripeSpacing :: real
  animated :: bool
  animSpeed :: real
  showArrow :: bool
  glowWhenActive :: bool

record zone_sound =
  enter :: string
  exit :: string

text \<open>
  The object pushed onto \<open>gravityZones\<close>. \<open>parseLevel\<close> does not create the property
  \<open>cooldownTimer\<close>: it is \<open>undefined\<close> (\<open>None\<close>) until \<open>checkGravityZones\<close> or
  \<open>activateGravityZone\<close> writes it. \<open>duration\<close> is a number or \<open>null\<close> (\<open>None\<close>).
\<close>

record zone = rect +
  zone_id :: nat
  type :: string
  trigger :: string
  duration :: "real option"
  cooldown :: real
  oneShot :: bool
  initialActive :: bool
  hasActivated :: bool
  visual :: zone_visual
  sound :: zone_sound
  cooldownTimer :: "real option"

section \<open>Collision test\<close>

text \<open>\<open>checkCollision(rect1, rect2)\<close>: strict overlap of two axis-aligned boxes.\<close>

definition checkCollision :: "('a::type) rect_scheme \<Rightarrow> ('b::type) rect_scheme \<Rightarrow> bool" where
  "checkCollision rect1 rect2 \<longleftrightarrow>
     x rect1 < x rect2 + width rect2 \<and>
     x rect1 + width rect1 > x rect2 \<and>
     y rect1 < y rect2 + height rect2 \<and>
     y rect1 + height rect1 > y rect2"

section \<open>Gravity zones\<close>

text \<open>
  JavaScript truthiness of the values the zone code tests: a number is falsy when it is 0,
  \<open>null\<close> and \<open>undefined\<close> are falsy, and \<open>undefined > 0\<close> is false.
\<close>

definition truthy_num :: "real option \<Rightarrow> bool" where
  "truthy_num v = (case v of None \<Rightarrow> False | Some n \<Rightarrow> n \<noteq> 0)"

definition gt0 :: "real option \<Rightarrow> bool" where
  "gt0 v = (case v of None \<Rightarrow> False | Some n \<Rightarrow> n > 0)"

definition le0 :: "real option \<Rightarrow> bool" where
  "le0 v = (case v of None \<Rightarrow> False | Some n \<Rightarrow> n \<le> 0)"

text \<open>
  \<open>activateGravityZone(zone)\<close> mutates the zone and the global player; the model returns
  both. The two early returns come first, then the \<open>switch\<close> on the type (no default
  branch), then the effects guarded by \<open>oldGravity !== player.gravityScale\<close>.
\<close>

definition activateGravityZone :: "zone \<Rightarrow> player \<Rightarrow> zone \<times> player" where
  "activateGravityZone zone p =
     (if oneShot zone \<and> hasActivated zone then (zone, p)
      else if gt0 (cooldownTimer zone) then (zone, p)
      else
        let oldGravity = gravityScale p;
            p1 = (if type zone = ''flip'' then p\<lparr>gravityScale := gravityScale p * (- 1)\<rparr>
                  else if type zone = ''toggle'' then p\<lparr>gravityScale := gravityScale p * (- 1)\<rparr>
                  else if type zone = ''momentary'' then p\<lparr>gravityScale := - 1\<rparr>
                  else p)
        in if oldGravity \<noteq> gravityScale p1 then
             let p2 = (if truthy_num (duration zone)
                       then p1\<lparr>gravityFlipTimer := the (duration zone)\<rparr> else p1);
                 zone1 = zone\<lparr>cooldownTimer :=
                           Some (if cooldown zone \<noteq> 0 then cooldown zone else 1.0)\<rparr>;
                 zone2 = zone1\<lparr>hasActivated := True\<rparr>;
                 p3 = p2\<lparr>hasBeenFlipped := True\<rparr>;
                 p4 = p3\<lparr>gravityIndicatorAlpha := 1.0\<rparr>;
                 p5 = p4\<lparr>vy := vy p4 * 0.5\<rparr>
             in (zone2, p5)
           else (zone, p1))"

text \<open>\<open>deactivateGravityZone(zone)\<close>, called when the player leaves a momentary zone.\<close>

definition deactivateGravityZone :: "zone \<Rightarrow> player \<Rightarrow> player" where
  "deactivateGravityZone zone p =
     (if gravityScale p \<noteq> 1
      then p\<lparr>gravityScale := 1, gravityIndicatorAlpha := 1.0\<rparr>
      else p)"

text \<open>
  The body of the \<open>forEach\<close> of \<open>checkGravityZones(deltaTime)\<close> for one zone, in its
  three parts: the cooldown timer (\<open>!zone.cooldownTimer\<close> holds for \<open>undefined\<close> and for
  0), the enter and exit transitions, and the contact trigger. \<open>isInZone\<close> and
  \<open>wasInZone\<close> are computed once, before the timer is touched.
\<close>

definition tickZoneCooldown :: "real \<Rightarrow> zone \<Rightarrow> zone" where
  "tickZoneCooldown deltaTime zone =
     (let za = (if \<not> truthy_num (cooldownTimer zone) then zone\<lparr>cooldownTimer := Some 0\<rparr>
                else zone)
      in if gt0 (cooldownTimer za)
         then za\<lparr>cooldownTimer := Some (the (cooldownTimer za) - deltaTime)\<rparr> else za)"

definition zoneEnterExit :: "bool \<Rightarrow> bool \<Rightarrow> zone \<Rightarrow> player \<Rightarrow> zone \<times> player" where
  "zoneEnterExit isInZone wasInZone zone p =
     (if isInZone \<and> \<not> wasInZone then
        (let pa = p\<lparr>currentGravityZone := insert (zone_id zone) (currentGravityZone p)\<rparr>
         in if trigger zone = ''enter'' \<and> le0 (cooldownTimer zone) \<and> \<not> gravityLocked pa
            then activateGravityZone zone pa else (zone, pa))
      else if \<not> isInZone \<and> wasInZone then
        (let pa = p\<lparr>currentGravityZone := currentGravityZone p - {zone_id zone}\<rparr>
         in if type zone = ''momentary'' then (zone, deactivateGravityZone zone pa)
            else (zone, pa))
      else (zone, p))"

definition zoneContact :: "bool \<Rightarrow> zone \<Rightarrow> player \<Rightarrow> zone \<times> player" where
  "zoneContact isInZone zone p =
     (if isInZone \<and> trigger zone = ''contact'' \<and> le0 (cooldownTimer zone) \<and> \<not> gravityLocked p
      then activateGravityZone zone p else (zone, p))"

definition checkGravityZone1 :: "real \<Rightarrow> zone \<Rightarrow> player \<Rightarrow> zone \<times> player" where
  "checkGravityZone1 deltaTime zone p =
     (let isInZone = checkCollision p zone;
          wasInZone = (zone_id zone \<in> currentGravityZone p);
          zb = tickZoneCooldown deltaTime zone;
          (zc, pc) = zoneEnterExit isInZone wasInZone zb p
      in zoneContact isInZone zc pc)"

fun checkGravityZones :: "real \<Rightarrow> zone list \<Rightarrow> player \<Rightarrow> zone list \<times> player" where
  "checkGravityZones deltaTime [] p = ([], p)"
| "checkGravityZones deltaTime (zone # zones) p =
     (let (zone', p') = checkGravityZone1 deltaTime zone p;
          (zones', p'') = checkGravityZones deltaTime zones p'
      in (zone' # zones', p''))"

section \<open>Spikes\<close>

text \<open>
  The body of the \<open>forEach\<close> of \<open>checkSpikeTriggers()\<close> for one spike. The test is made
  on the player's position in the current frame only: no position of an earlier frame is
  kept anywhere in the program.
\<close>

definition checkSpikeTrigger1 :: "player \<Rightarrow> spike \<Rightarrow> spike" where
  "checkSpikeTrigger1 p spike =
     (if \<not> triggered spike \<and> \<not> moved spike then
        let playerRightEdge = x p + width p;
            playerLeftEdge = x p;
            playerTop = y p;
            playerBottom = y p + height p;
            withinVerticalBounds =
              (playerBottom \<ge> triggerY spike \<and> playerTop \<le> triggerY spike + triggerHeight spike);
            currentlyCrossingLine =
              (playerLeftEdge < triggerX spike \<and> playerRightEdge \<ge> triggerX spike)
        in if currentlyCrossingLine \<and> withinVerticalBounds
           then spike\<lparr>triggered := True, moving := True, moveTimer := 0\<rparr>
           else spike
      else spike)"

definition checkSpikeTriggers :: "player \<Rightarrow> spike list \<Rightarrow> spike list" where
  "checkSpikeTriggers p spikes = map (checkSpikeTrigger1 p) spikes"

text \<open>
  The body of the loop "Update moving spikes" of \<open>update(deltaTime)\<close>:
  \<open>spike.moveTimer += deltaTime * 5\<close> is a rounded product and a rounded sum, and the
  position is \<open>originalX + (targetX - originalX) * moveTimer\<close> with
  \<open>targetX = originalX + moveDistance\<close>, each operation rounded.
\<close>

definition updateMovingSpike :: "real \<Rightarrow> spike \<Rightarrow> spike" where
  "updateMovingSpike deltaTime spike =
     (if moving spike then
        let s1 = spike\<lparr>moveTimer := fl (moveTimer spike + fl (deltaTime * 5))\<rparr>;
            s2 = (if moveTimer s1 \<ge> 1
                  then s1\<lparr>moveTimer := 1, moving := False, moved := True\<rparr> else s1);
            targetX = fl (originalX s2 + moveDistance s2)
        in s2\<lparr>x := fl (originalX s2 + fl (fl (targetX - originalX s2) * moveTimer s2))\<rparr>
      else spike)"

definition updateMovingSpikes :: "real \<Rightarrow> spike list \<Rightarrow> spike list" where
  "updateMovingSpikes deltaTime spikes = map (updateMovingSpike deltaTime) spikes"

text \<open>The body of the loop "Reset all spikes" of \<open>resetPlayer()\<close>.\<close>

definition resetSpike :: "spike \<Rightarrow> spike" where
  "resetSpike spike =
     spike\<lparr>x := originalX spike, triggered := False, moved := False, moving := False,
             moveTimer := 0\<rparr>"

text \<open>
  What one frame of the playing state does to one spike: \<open>checkSpikeTriggers()\<close> with the
  player as the physics step left it, then the moving-spike loop. Nothing else in
  \<open>update\<close> writes a spike.
\<close>

definition spikeFrame :: "player \<times> real \<Rightarrow> spike \<Rightarrow> spike" where
  "spikeFrame f spike = updateMovingSpike (snd f) (checkSpikeTrigger1 (fst f) spike)"

text \<open>A run of frames, each given by the player's box in that frame and its \<open>deltaTime\<close>.\<close>

definition spikeFrames :: "(player \<times> real) list \<Rightarrow> spike \<Rightarrow> spike" where
  "spikeFrames fs spike = foldl (\<lambda>s f. spikeFrame f s) spike fs"

section \<open>Level data\<close>

text \<open>
  The tables \<open>chapters\<close> and the level objects live in \<open>levels.js\<close>, which is not among
  the sources: the model takes them as data of the game state. An absent property is
  \<open>None\<close>. A zone configuration object may leave out any of its properties;
  \<open>duration\<close> may also be \<open>null\<close> (\<open>Some None\<close>).
\<close>

record visual_config =
  cfg_color :: "string option"
  cfg_secondaryColor :: "string option"
  cfg_alpha :: "real option"
  cfg_stripeAngle :: "real option"
  cfg_stripeWidth :: "real option"
  cfg_stripeSpacing :: "real option"
  cfg_animated :: "bool option"
  cfg_animSpeed :: "real option"
  cfg_showArrow :: "bool option"
  cfg_glowWhenActive :: "bool option"

record sound_config =
  cfg_enter :: "string option"
  cfg_exit :: "string option"

record zone_config =
  cfg_type :: "string option"
  cfg_trigger :: "string option"
  cfg_duration :: "real option option"
  cfg_cooldown :: "real option"
  cfg_oneShot :: "bool option"
  cfg_initialActive :: "bool option"
  cfg_visual :: "visual_config option"
  cfg_sound :: "sound_config option"

record level =
  levelName :: string
  levelMap :: "string list"
  spikeTriggers :: "real list option"
  spikeTriggerLengths :: "real option list option"
  levelGravityZones :: "zone_config list option"

record chapter_data =
  chapterGravityZones :: "zone_config list option"
  chapterLevels :: "level list"
  bonusLevel :: "level option"

text \<open>The flattening of \<open>chapters\<close> into the global array \<open>levels\<close>.\<close>

definition levels :: "chapter_data list \<Rightarrow> level list" where
  "levels chapters =
     concat (map (\<lambda>c. chapterLevels c @ (case bonusLevel c of None \<Rightarrow> [] | Some b \<Rightarrow> [b]))
                 chapters)"

datatype js_error = TypeError

text \<open>Reading \<open>xs[i]\<close>: \<open>undefined\<close> (\<open>None\<close>) outside the array.\<close>

definition js_index :: "'a list \<Rightarrow> nat \<Rightarrow> 'a option" where
  "js_index xs i = (if i < length xs then Some (xs ! i) else None)"

text \<open>
  \<open>getGlobalLevelIndex(chapterIndex, levelInChapter)\<close>: the loop reads
  \<open>chapters[i].levels\<close> for every \<open>i < chapterIndex\<close> and throws when a chapter is missing.
\<close>

definition getGlobalLevelIndex :: "chapter_data list \<Rightarrow> nat \<Rightarrow> nat \<Rightarrow> js_error + nat" where
  "getGlobalLevelIndex chapters chapterIndex levelInChapter =
     (if chapterIndex > length chapters then Inl TypeError
      else Inr (foldl (\<lambda>globalIndex c.
                         globalIndex + length (chapterLevels c)
                           + (case bonusLevel c of None \<Rightarrow> 0 | Some b \<Rightarrow> 1))
                      0 (take chapterIndex chapters)
                + levelInChapter))"

text \<open>The two loops of \<open>getChapterFromGlobalLevel\<close> and \<open>getLevelInChapterFromGlobalLevel\<close>.\<close>

fun chapterScan :: "chapter_data list \<Rightarrow> nat \<Rightarrow> nat \<Rightarrow> nat \<Rightarrow> (nat \<times> nat) option" where
  "chapterScan [] i currentIndex globalLevelIndex = None"
| "chapterScan (c # cs) i currentIndex globalLevelIndex =
     (let chapterRegularLevels = length (chapterLevels c);
          chapterHasBonus = (case bonusLevel c of None \<Rightarrow> 0 | Some b \<Rightarrow> 1);
          chapterTotalLevels = chapterRegularLevels + chapterHasBonus
      in if globalLevelIndex < currentIndex + chapterTotalLevels
         then Some (i, globalLevelIndex - currentIndex)
         else chapterScan cs (Suc i) (currentIndex + chapterTotalLevels) globalLevelIndex)"

definition getChapterFromGlobalLevel :: "chapter_data list \<Rightarrow> nat \<Rightarrow> nat" where
  "getChapterFromGlobalLevel chapters globalLevelIndex =
     (case chapterScan chapters 0 0 globalLevelIndex of None \<Rightarrow> 0 | Some (i, k) \<Rightarrow> i)"

definition getLevelInChapterFromGlobalLevel :: "chapter_data list \<Rightarrow> nat \<Rightarrow> nat" where
  "getLevelInChapterFromGlobalLevel chapters globalLevelIndex =
     (case chapterScan chapters 0 0 globalLevelIndex of None \<Rightarrow> 0 | Some (i, k) \<Rightarrow> k)"

section \<open>Game state\<close>

text \<open>
  The global variables of the program that the simulation reads or writes. \<open>gameState\<close> is
  a string in the source, \<open>null\<close> (\<open>None\<close>) when a fade-out ends with no pending state.
  The canvas size comes from the page. The player object exists in every state the
  per-frame update touches it: \<open>gameState = 'playing'\<close> is only set by \<open>loadLevel\<close> and
  \<open>loadLevelFromChapter\<close> after \<open>resetPlayer()\<close>, and by resuming from \<open>'paused'\<close>.
\<close>

datatype game_state =
  Menu | Settings | ChapterSelect | LevelSelect | Customize | Playing | Paused | LevelComplete

datatype transition_state = NoTransition | FadeOut | FadeIn

record keys =
  left :: bool
  right :: bool
  space :: bool

record game =
  chapters :: "chapter_data list"
  canvasWidth :: real
  canvasHeight :: real
  gameState :: "game_state option"
  currentChapter :: nat
  currentLevel :: nat
  currentLevelInChapter :: nat
  player :: player
  platforms :: "rect list"
  fakeBlocks :: "rect list"
  invisiblePlatforms :: "rect list"
  spikes :: "spike list"
  gravityZones :: "zone list"
  door :: "rect option"
  spawnPoint :: "(real \<times> real) option"
  deaths :: nat
  levelDeaths :: nat
  levelTime :: real
  isDead :: bool
  deathFlashTimer :: real
  levelCompleteTimer :: real
  transitionState :: transition_state
  transitionAlpha :: real
  pendingGameState :: "game_state option"
  completedLevels :: "nat set"
  levelStars :: "nat \<rightharpoonup> nat"
  keys :: keys
  isPaused :: bool
  lastTime :: real

definition transitionSpeed :: real where
  "transitionSpeed = 3"

definition ENABLE_GRAVITY_ZONES :: bool where
  "ENABLE_GRAVITY_ZONES = True"

section \<open>Level parser\<close>

definition defaultTriggerOffset :: real where
  "defaultTriggerOffset = - 0.5"

text \<open>\<open>/^[0-9]$/.test(char)\<close> and \<open>parseInt(char, 10)\<close> on a one-character string.\<close>

definition isDigit :: "char \<Rightarrow> bool" where
  "isDigit c \<longleftrightarrow> 48 \<le> (of_char c :: nat) \<and> (of_char c :: nat) \<le> 57"

definition parseInt :: "char \<Rightarrow> real" where
  "parseInt c = real ((of_char c :: nat) - 48)"

text \<open>
  The spike branch of the scan: the object pushed for the glyph \<open>c\<close> found at pixel
  position \<open>(tx, ty)\<close> when \<open>spikeIndex\<close> spikes were found before it. An entry of
  \<open>spikeTriggerLengths\<close> is a number or \<open>null\<close>.
\<close>

definition makeSpike ::
  "real \<Rightarrow> real list \<Rightarrow> real option list \<Rightarrow> nat \<Rightarrow> real \<Rightarrow> real \<Rightarrow> char \<Rightarrow> spike" where
  "makeSpike canvas_height customTriggers customTriggerLengths spikeIndex tx ty c =
     (let moveDistance = (if c = CHR ''^'' then TILE_SIZE * 2 else TILE_SIZE * parseInt c);
          triggerOffset = (case js_index customTriggers spikeIndex of
                             Some v \<Rightarrow> v | None \<Rightarrow> defaultTriggerOffset);
          triggerX = tx - (triggerOffset * TILE_SIZE);
          triggerLength = (case js_index customTriggerLengths spikeIndex of
                             Some (Some v) \<Rightarrow> Some v | Some None \<Rightarrow> None | None \<Rightarrow> None);
          (triggerY, triggerHeight) =
            (case triggerLength of
               None \<Rightarrow> (0, canvas_height)
             | Some len \<Rightarrow>
                 if len = 0 then (0, canvas_height)
                 else let spikeTopY = ty + 20
                      in if len > 0 then (spikeTopY - len, len) else (spikeTopY, \<bar>len\<bar>))
      in \<lparr>x = tx, y = ty + 20, width = TILE_SIZE, height = TILE_SIZE - 20,
          originalX = tx, moveDistance = moveDistance,
          triggerX = triggerX, triggerY = triggerY, triggerHeight = triggerHeight,
          triggerOffset = triggerOffset, triggerLength = triggerLength,
          triggered = False, moved = False, moving = False, moveTimer = 0\<rparr>)"

text \<open>
  The body of the inner loop of the first scan of \<open>parseLevel()\<close>: one glyph at
  \<open>(row, col)\<close>. The state is the globals being rebuilt together with the local counter
  \<open>spikeIndex\<close>. \<open>push\<close> appends at the end.
\<close>

definition parseCell ::
  "real list \<Rightarrow> real option list \<Rightarrow> nat \<Rightarrow> nat \<Rightarrow> char \<Rightarrow> game \<times> nat \<Rightarrow> game \<times> nat" where
  "parseCell customTriggers customTriggerLengths row col c st =
     (let g = fst st; spikeIndex = snd st;
          tx = real col * TILE_SIZE;
          ty = real row * TILE_SIZE
      in if c = CHR ''#'' then
           (g\<lparr>platforms := platforms g @
                 [\<lparr>x = tx, y = ty, width = TILE_SIZE, height = TILE_SIZE\<rparr>]\<rparr>, spikeIndex)
         else if c = CHR ''F'' then
           (g\<lparr>fakeBlocks := fakeBlocks g @
                 [\<lparr>x = tx, y = ty, width = TILE_SIZE, height = TILE_SIZE\<rparr>]\<rparr>, spikeIndex)
         else if c = CHR ''I'' then
           (g\<lparr>invisiblePlatforms := invisiblePlatforms g @
                 [\<lparr>x = tx, y = ty, width = TILE_SIZE, height = TILE_SIZE\<rparr>]\<rparr>, spikeIndex)
         else if isDigit c \<or> c = CHR ''^'' then
           (g\<lparr>spikes := spikes g @
                 [makeSpike (canvasHeight g) customTriggers customTriggerLengths spikeIndex tx ty c]\<rparr>,
            spikeIndex + 1)
         else if c = CHR ''D'' then
           (g\<lparr>door := Some \<lparr>x = tx, y = ty, width = TILE_SIZE, height = TILE_SIZE\<rparr>\<rparr>, spikeIndex)
         else if c = CHR ''S'' then
           (g\<lparr>spawnPoint := Some (tx + 15, ty)\<rparr>, spikeIndex)
         else (g, spikeIndex))"

text \<open>The loop over the columns of one row (from column \<open>col\<close> on), and over the rows.\<close>

fun parseRow ::
  "real list \<Rightarrow> real option list \<Rightarrow> nat \<Rightarrow> nat \<Rightarrow> string \<Rightarrow> game \<times> nat \<Rightarrow> game \<times> nat" where
  "parseRow customTriggers customTriggerLengths row col [] st = st"
| "parseRow customTriggers customTriggerLengths row col (c # cs) st =
     parseRow customTriggers customTriggerLengths row (Suc col) cs
       (parseCell customTriggers customTriggerLengths row col c st)"

fun parseRows ::
  "real list \<Rightarrow> real option list \<Rightarrow> nat \<Rightarrow> string list \<Rightarrow> game \<times> nat \<Rightarrow> game \<times> nat" where
  "parseRows customTriggers customTriggerLengths row [] st = st"
| "parseRows customTriggers customTriggerLengths row (line # rest) st =
     parseRows customTriggers customTriggerLengths (Suc row) rest
       (parseRow customTriggers customTriggerLengths row 0 line st)"

text \<open>
  The second scan: the markers \<open>G\<close> and \<open>g\<close> in row-major order (the source also
  stores the glyph in the marker object and never reads it), and the flood fill that
  groups 4-connected markers. \<open>processedPositions\<close> is a \<open>Set\<close> of the keys
  \<open>`${row},${col}`\<close>, which determine the pair. The stack is an array: \<open>pop\<close> takes its
  last element and \<open>push\<close> appends.
\<close>

definition isZoneChar :: "char \<Rightarrow> bool" where
  "isZoneChar c \<longleftrightarrow> c = CHR ''G'' \<or> c = CHR ''g''"

definition inGrid :: "string list \<Rightarrow> int \<times> int \<Rightarrow> bool" where
  "inGrid theMap pos \<longleftrightarrow>
     fst pos \<ge> 0 \<and> fst pos < int (length theMap) \<and>
     snd pos \<ge> 0 \<and> snd pos < int (length (theMap ! nat (fst pos)))"

record zone_box =
  minRow :: int
  maxRow :: int
  minCol :: int
  maxCol :: int

definition adjacent :: "string list \<Rightarrow> (int \<times> int) set \<Rightarrow> int \<times> int \<Rightarrow> (int \<times> int) list" where
  "adjacent theMap processedPositions current =
     filter (\<lambda>pos. inGrid theMap pos
                   \<and> isZoneChar (theMap ! nat (fst pos) ! nat (snd pos))
                   \<and> pos \<notin> processedPositions)
       (map (\<lambda>(dr, dc). (fst current + dr, snd current + dc)) [(0, 1), (0, - 1), (1, 0), (- 1, 0)])"

text \<open>
  The \<open>while (stack.length > 0)\<close> loop. It ends because every pass either shortens the
  stack or marks a position of the grid or of the stack that was not marked before, and
  only positions inside the grid are ever pushed.
\<close>

lemma finite_inGrid: "finite {pos. inGrid theMap pos}"
proof -
  have "{pos. inGrid theMap pos} \<subseteq>
        (\<lambda>(i, j). (int i, int j)) ` (SIGMA i:{..<length theMap}. {..<length (theMap ! i)})"
  proof
    fix pos assume "pos \<in> {pos. inGrid theMap pos}"
    then have h: "inGrid theMap pos" by simp
    then have "(nat (fst pos), nat (snd pos)) \<in> (SIGMA i:{..<length theMap}. {..<length (theMap ! i)})"
      by (auto simp: inGrid_def)
    moreover have "pos = (\<lambda>(i, j). (int i, int j)) (nat (fst pos), nat (snd pos))"
      using h by (auto simp: inGrid_def)
    ultimately show "pos \<in> (\<lambda>(i, j). (int i, int j)) ` (SIGMA i:{..<length theMap}. {..<length (theMap ! i)})"
      by (rule image_eqI[rotated])
  qed
  then show ?thesis by (rule finite_subset) auto
qed

function floodFill ::
  "string list \<Rightarrow> (int \<times> int) list \<Rightarrow> (int \<times> int) set \<Rightarrow> zone_box \<Rightarrow> (int \<times> int) set \<times> zone_box" where
  "floodFill theMap stack processedPositions zone =
     (if stack = [] then (processedPositions, zone)
      else
        let current = last stack; stack1 = butlast stack
        in if current \<in> processedPositions then floodFill theMap stack1 processedPositions zone
           else
             let processed1 = insert current processedPositions;
                 zone1 = zone\<lparr>minRow := min (minRow zone) (fst current),
                              maxRow := max (maxRow zone) (fst current),
                              minCol := min (minCol zone) (snd current),
                              maxCol := max (maxCol zone) (snd current)\<rparr>
             in floodFill theMap (stack1 @ adjacent theMap processed1 current) processed1 zone1)"
  by pat_completeness auto
termination
proof (relation "(\<lambda>(m, s, p, z). card (({pos. inGrid m pos} \<union> set s) - p)) <*mlex*>
                 measure (\<lambda>(m, s, p, z). length s)", goal_cases)
  case 1
  show ?case by (simp add: wf_mlex)
next
  case (2 theMap stack processed zone cur st1)
  have sub: "set (butlast stack) \<subseteq> set stack" by (meson in_set_butlastD subsetI)
  have fin: "finite (({pos. inGrid theMap pos} \<union> set stack) - processed)"
    by (simp add: finite_inGrid)
  have "card (({pos. inGrid theMap pos} \<union> set (butlast stack)) - processed)
        \<le> card (({pos. inGrid theMap pos} \<union> set stack) - processed)"
    by (rule card_mono[OF fin]) (use sub in auto)
  with 2 show ?case by (auto simp: mlex_iff)
next
  case (3 theMap stack processed zone cur st1 p1 z1)
  have cur: "cur \<in> set stack" using 3 by simp
  have sub: "set (butlast stack) \<subseteq> set stack" by (meson in_set_butlastD subsetI)
  have adj: "set (adjacent theMap p1 cur) \<subseteq> {pos. inGrid theMap pos}"
    by (auto simp: adjacent_def)
  have fin: "finite (({pos. inGrid theMap pos} \<union> set stack) - processed)"
    by (simp add: finite_inGrid)
  have "({pos. inGrid theMap pos} \<union> set (st1 @ adjacent theMap p1 cur)) - p1
        \<subset> ({pos. inGrid theMap pos} \<union> set stack) - processed"
    using 3 cur sub adj by auto
  then have "card (({pos. inGrid theMap pos} \<union> set (st1 @ adjacent theMap p1 cur)) - p1)
        < card (({pos. inGrid theMap pos} \<union> set stack) - processed)"
    by (rule psubset_card_mono[OF fin])
  then show ?case by (simp add: mlex_iff)
qed

fun rowMarkers :: "nat \<Rightarrow> nat \<Rightarrow> string \<Rightarrow> (int \<times> int) list" where
  "rowMarkers row col [] = []"
| "rowMarkers row col (c # cs) =
     (if isZoneChar c then [(int row, int col)] else []) @ rowMarkers row (Suc col) cs"

fun zoneMarkers :: "nat \<Rightarrow> string list \<Rightarrow> (int \<times> int) list" where
  "zoneMarkers row [] = []"
| "zoneMarkers row (line # rest) = rowMarkers row 0 line @ zoneMarkers (Suc row) rest"

text \<open>The \<open>zoneMarkers.forEach\<close> that starts one flood fill per marker not yet processed.\<close>

fun detectZones ::
  "string list \<Rightarrow> (int \<times> int) list \<Rightarrow> (int \<times> int) set \<Rightarrow> zone_box list \<Rightarrow> zone_box list" where
  "detectZones theMap [] processedPositions detectedZones = detectedZones"
| "detectZones theMap (marker # markers) processedPositions detectedZones =
     (if marker \<in> processedPositions
      then detectZones theMap markers processedPositions detectedZones
      else
        let (processed1, zone) =
              floodFill theMap [marker] processedPositions
                \<lparr>minRow = fst marker, maxRow = fst marker,
                 minCol = snd marker, maxCol = snd marker\<rparr>
        in detectZones theMap markers processed1 (detectedZones @ [zone]))"

text \<open>
  The defaults of the zone object: \<open>a || d\<close> takes \<open>d\<close> when \<open>a\<close> is absent, the empty
  string, 0 or \<open>false\<close>; \<open>a !== undefined ? a : d\<close> takes \<open>d\<close> only when \<open>a\<close> is absent.
\<close>

definition str_or :: "string option \<Rightarrow> string \<Rightarrow> string" where
  "str_or a d = (case a of None \<Rightarrow> d | Some s \<Rightarrow> if s = [] then d else s)"

definition num_or :: "real option \<Rightarrow> real \<Rightarrow> real" where
  "num_or a d = (case a of None \<Rightarrow> d | Some n \<Rightarrow> if n = 0 then d else n)"

definition bool_or_false :: "bool option \<Rightarrow> bool" where
  "bool_or_false a = (case a of None \<Rightarrow> False | Some b \<Rightarrow> b)"

definition defined_or :: "'a option \<Rightarrow> 'a \<Rightarrow> 'a" where
  "defined_or a d = (case a of None \<Rightarrow> d | Some v \<Rightarrow> v)"

definition emptyConfig :: zone_config where
  "emptyConfig = \<lparr>cfg_type = None, cfg_trigger = None, cfg_duration = None, cfg_cooldown = None,
                  cfg_oneShot = None, cfg_initialActive = None, cfg_visual = None,
                  cfg_sound = None\<rparr>"

text \<open>
  \<open>(chapterData.gravityZones && chapterData.gravityZones[index]) ||
  (levelData.gravityZones && levelData.gravityZones[index]) || {}\<close>: the chapter's entry
  when there is one, else the level's, else the empty object.
\<close>

definition zoneConfigFor :: "chapter_data \<Rightarrow> level \<Rightarrow> nat \<Rightarrow> zone_config" where
  "zoneConfigFor chapterData levelData index =
     (case (case chapterGravityZones chapterData of None \<Rightarrow> None | Some zs \<Rightarrow> js_index zs index) of
        Some cfg \<Rightarrow> cfg
      | None \<Rightarrow>
          (case (case levelGravityZones levelData of None \<Rightarrow> None | Some zs \<Rightarrow> js_index zs index) of
             Some cfg \<Rightarrow> cfg
           | None \<Rightarrow> emptyConfig))"

text \<open>\<open>zoneConfig.visual?.f\<close>: absent when \<open>visual\<close> is absent.\<close>

definition visual_field :: "zone_config \<Rightarrow> (visual_config \<Rightarrow> 'a option) \<Rightarrow> 'a option" where
  "visual_field zoneConfig f = (case cfg_visual zoneConfig of None \<Rightarrow> None | Some v \<Rightarrow> f v)"

definition sound_field :: "zone_config \<Rightarrow> (sound_config \<Rightarrow> 'a option) \<Rightarrow> 'a option" where
  "sound_field zoneConfig f = (case cfg_sound zoneConfig of None \<Rightarrow> None | Some v \<Rightarrow> f v)"

text \<open>The object pushed by \<open>detectedZones.forEach((zone, index) => ...)\<close>.\<close>

definition makeZone :: "chapter_data \<Rightarrow> level \<Rightarrow> zone_box \<Rightarrow> nat \<Rightarrow> zone" where
  "makeZone chapterData levelData zone index =
     (let zoneConfig = zoneConfigFor chapterData levelData index
      in \<lparr>x = real_of_int (minCol zone) * TILE_SIZE,
          y = real_of_int (minRow zone) * TILE_SIZE,
          width = real_of_int (maxCol zone - minCol zone + 1) * TILE_SIZE,
          height = real_of_int (maxRow zone - minRow zone + 1) * TILE_SIZE,
          zone_id = index,
          type = str_or (cfg_type zoneConfig) ''flip'',
          trigger = str_or (cfg_trigger zoneConfig) ''enter'',
          duration = defined_or (cfg_duration zoneConfig) None,
          cooldown = defined_or (cfg_cooldown zoneConfig) 0.5,
          oneShot = bool_or_false (cfg_oneShot zoneConfig),
          initialActive = bool_or_false (cfg_initialActive zoneConfig),
          hasActivated = False,
          visual =
            \<lparr>color = str_or (visual_field zoneConfig cfg_color) ''#44ddff'',
             secondaryColor = str_or (visual_field zoneConfig cfg_secondaryColor) ''#ff44dd'',
             alpha = defined_or (visual_field zoneConfig cfg_alpha) 0.35,
             stripeAngle = num_or (visual_field zoneConfig cfg_stripeAngle) 45,
             stripeWidth = num_or (visual_field zoneConfig cfg_stripeWidth) 8,
             stripeSpacing = num_or (visual_field zoneConfig cfg_stripeSpacing) 20,
             animated = defined_or (visual_field zoneConfig cfg_animated) True,
             animSpeed = num_or (visual_field zoneConfig cfg_animSpeed) 40,
             showArrow = defined_or (visual_field zoneConfig cfg_showArrow) True,
             glowWhenActive = defined_or (visual_field zoneConfig cfg_glowWhenActive) True\<rparr>,
          sound =
            \<lparr>enter = str_or (sound_field zoneConfig cfg_enter) ''gravity_flip'',
             exit = str_or (sound_field zoneConfig cfg_exit) ''gravity_restore''\<rparr>,
          cooldownTimer = None\<rparr>)"

fun makeZones :: "chapter_data \<Rightarrow> level \<Rightarrow> nat \<Rightarrow> zone_box list \<Rightarrow> zone list" where
  "makeZones chapterData levelData index [] = []"
| "makeZones chapterData levelData index (zone # rest) =
     makeZone chapterData levelData zone index # makeZones chapterData levelData (Suc index) rest"

text \<open>
  \<open>parseLevel()\<close>. Reading \<open>levels[currentLevel].map\<close> throws when the level does not
  exist; \<open>chapterData.gravityZones\<close> is read inside the \<open>forEach\<close> over the detected zones
  and throws when the chapter does not exist and there is a zone. An exception leaves the
  frame loop, so the model keeps no state for it.
\<close>

definition parseLevel :: "game \<Rightarrow> js_error + game" where
  "parseLevel g =
     (let g1 = g\<lparr>platforms := [], fakeBlocks := [], invisiblePlatforms := [], spikes := [],
                 door := None, spawnPoint := None\<rparr>
      in case js_index (levels (chapters g1)) (currentLevel g1) of
           None \<Rightarrow> Inl TypeError
         | Some levelData \<Rightarrow>
             let theMap = levelMap levelData;
                 customTriggers = defined_or (spikeTriggers levelData) [];
                 customTriggerLengths = defined_or (spikeTriggerLengths levelData) [];
                 g2 = fst (parseRows customTriggers customTriggerLengths 0 theMap (g1, 0))
             in if ENABLE_GRAVITY_ZONES then
                  let g3 = g2\<lparr>gravityZones := []\<rparr>;
                      detectedZones = detectZones theMap (zoneMarkers 0 theMap) {} []
                  in if detectedZones = [] then Inr g3
                     else case js_index (chapters g3) (currentChapter g3) of
                            None \<Rightarrow> Inl TypeError
                          | Some chapterData \<Rightarrow>
                              Inr (g3\<lparr>gravityZones :=
                                         makeZones chapterData levelData 0 detectedZones\<rparr>)
                else Inr g2)"

section \<open>Respawn, death, completion and level loading\<close>

text \<open>\<open>resetPlayer()\<close>: a fresh player object at the spawn point, and every spike reset.\<close>

definition resetPlayer :: "game \<Rightarrow> game" where
  "resetPlayer g =
     (let startX = (case spawnPoint g of Some sp \<Rightarrow> fst sp | None \<Rightarrow> TILE_SIZE + 15);
          startY = (case spawnPoint g of Some sp \<Rightarrow> snd sp | None \<Rightarrow> TILE_SIZE * 2)
      in g\<lparr>player :=
              \<lparr>x = startX, y = startY, width = 45, height = 45,
               vx = 0, vy = 0, onGround = False, hasJumped = False,
               gravityScale = 1, currentGravityZone = {}, gravityFlipTimer = 0,
               gravityFlipCooldown = 0, gravityLocked = False, lastGravityZone = None,
               hasBeenFlipped = False, gravityIndicatorAlpha = 0\<rparr>,
            spikes := map resetSpike (spikes g),
            isDead := False,
            deathFlashTimer := 0\<rparr>)"

definition die :: "game \<Rightarrow> game" where
  "die g =
     (if \<not> isDead g
      then g\<lparr>isDead := True, deathFlashTimer := DEATH_FLASH_DURATION,
             deaths := deaths g + 1, levelDeaths := levelDeaths g + 1\<rparr>
      else g)"

definition calculateStars :: "nat \<Rightarrow> nat" where
  "calculateStars n = (if n = 0 then 3 else if n \<le> 3 then 2 else if n \<le> 10 then 1 else 0)"

definition markLevelComplete :: "nat \<Rightarrow> game \<Rightarrow> game" where
  "markLevelComplete globalIndex g =
     (let g1 = g\<lparr>completedLevels := insert globalIndex (completedLevels g)\<rparr>;
          stars = calculateStars (levelDeaths g1);
          currentStars = (case levelStars g1 globalIndex of None \<Rightarrow> 0 | Some k \<Rightarrow> k)
      in if stars > currentStars
         then g1\<lparr>levelStars := (levelStars g1)(globalIndex \<mapsto> stars)\<rparr> else g1)"

definition completeLevel :: "game \<Rightarrow> game" where
  "completeLevel g =
     markLevelComplete (currentLevel g)
       (g\<lparr>gameState := Some LevelComplete, levelCompleteTimer := LEVEL_COMPLETE_DURATION\<rparr>)"

definition loadLevelFromChapter :: "nat \<Rightarrow> nat \<Rightarrow> game \<Rightarrow> js_error + game" where
  "loadLevelFromChapter chapterIndex levelInChapter g =
     (case getGlobalLevelIndex (chapters g) chapterIndex levelInChapter of
        Inl e \<Rightarrow> Inl e
      | Inr globalIndex \<Rightarrow>
          (case parseLevel (g\<lparr>currentChapter := chapterIndex,
                               currentLevelInChapter := levelInChapter,
                               currentLevel := globalIndex,
                               levelDeaths := 0, levelTime := 0\<rparr>) of
             Inl e \<Rightarrow> Inl e
           | Inr g1 \<Rightarrow> Inr ((resetPlayer g1)\<lparr>gameState := Some Playing\<rparr>)))"

definition loadLevel :: "nat \<Rightarrow> game \<Rightarrow> js_error + game" where
  "loadLevel globalLevelIndex g =
     (case parseLevel (g\<lparr>currentLevel := globalLevelIndex,
                          currentChapter := getChapterFromGlobalLevel (chapters g) globalLevelIndex,
                          currentLevelInChapter :=
                            getLevelInChapterFromGlobalLevel (chapters g) globalLevelIndex,
                          levelDeaths := 0, levelTime := 0\<rparr>) of
        Inl e \<Rightarrow> Inl e
      | Inr g1 \<Rightarrow> Inr ((resetPlayer g1)\<lparr>gameState := Some Playing\<rparr>))"

section \<open>Physics step\<close>

text \<open>The gravity timers at the head of the playing branch of \<open>update\<close>.\<close>

definition updateGravityTimers :: "real \<Rightarrow> player \<Rightarrow> player" where
  "updateGravityTimers deltaTime p =
     (let p1 = (if gravityFlipTimer p > 0 then
                  let q = p\<lparr>gravityFlipTimer := gravityFlipTimer p - deltaTime\<rparr>
                  in if gravityFlipTimer q \<le> 0
                     then q\<lparr>gravityScale := 1, gravityIndicatorAlpha := 1.0\<rparr> else q
                else p);
          p2 = (if gravityFlipCooldown p1 > 0
                then p1\<lparr>gravityFlipCooldown := gravityFlipCooldown p1 - deltaTime\<rparr> else p1)
      in if gravityIndicatorAlpha p2 > 0
         then p2\<lparr>gravityIndicatorAlpha := gravityIndicatorAlpha p2 - deltaTime * 2\<rparr> else p2)"

text \<open>Horizontal velocity from the keys, the jump and the release of the jump latch.\<close>

definition applyControls :: "keys \<Rightarrow> player \<Rightarrow> player" where
  "applyControls ks p =
     (let p1 = (if left ks then p\<lparr>vx := - MOVE_SPEED\<rparr>
                else if right ks then p\<lparr>vx := MOVE_SPEED\<rparr>
                else p\<lparr>vx := 0\<rparr>);
          p2 = (if space ks \<and> onGround p1 \<and> \<not> hasJumped p1
                then p1\<lparr>vy := JUMP_FORCE * gravityScale p1, onGround := False, hasJumped := True\<rparr>
                else p1)
      in if \<not> space ks then p2\<lparr>hasJumped := False\<rparr> else p2)"

definition applyGravity :: "real \<Rightarrow> player \<Rightarrow> player" where
  "applyGravity deltaTime p =
     (let effectiveGravity = GRAVITY * gravityScale p
      in p\<lparr>vy := vy p + effectiveGravity * deltaTime\<rparr>)"

definition moveHorizontal :: "real \<Rightarrow> real \<Rightarrow> player \<Rightarrow> player" where
  "moveHorizontal canvas_width deltaTime p =
     (let p1 = p\<lparr>x := x p + vx p * deltaTime\<rparr>;
          p2 = (if x p1 < 0 then p1\<lparr>x := 0\<rparr> else p1)
      in if x p2 + width p2 > canvas_width then p2\<lparr>x := canvas_width - width p2\<rparr> else p2)"

text \<open>
  The body of the two "horizontal collision check" loops (the same code for \<open>platforms\<close>
  and for \<open>invisiblePlatforms\<close>), and the loop in list order.
\<close>

definition resolveHorizontal1 :: "rect \<Rightarrow> player \<Rightarrow> player" where
  "resolveHorizontal1 platform p =
     (if checkCollision p platform then
        (if vx p > 0 then p\<lparr>x := x platform - width p\<rparr>
         else if vx p < 0 then p\<lparr>x := x platform + width platform\<rparr>
         else p)
      else p)"

definition resolveHorizontal :: "rect list \<Rightarrow> player \<Rightarrow> player" where
  "resolveHorizontal solids p = foldl (\<lambda>q platform. resolveHorizontal1 platform q) p solids"

text \<open>\<open>player.y += player.vy * deltaTime; player.onGround = false\<close>.\<close>

definition moveVertical :: "real \<Rightarrow> player \<Rightarrow> player" where
  "moveVertical deltaTime p = (p\<lparr>y := y p + vy p * deltaTime\<rparr>)\<lparr>onGround := False\<rparr>"

text \<open>The body of the two "vertical collision check" loops, and the loop in list order.\<close>

definition resolveVertical1 :: "rect \<Rightarrow> player \<Rightarrow> player" where
  "resolveVertical1 platform p =
     (if checkCollision p platform then
        (if gravityScale p > 0 then
           (if vy p > 0
            then p\<lparr>y := y platform - height p, vy := 0, onGround := True\<rparr>
            else if vy p < 0
            then p\<lparr>y := y platform + height platform, vy := 0\<rparr>
            else p)
         else
           (if vy p < 0
            then p\<lparr>y := y platform + height platform, vy := 0, onGround := True\<rparr>
            else if vy p > 0
            then p\<lparr>y := y platform - height p, vy := 0\<rparr>
            else p))
      else p)"

definition resolveVertical :: "rect list \<Rightarrow> player \<Rightarrow> player" where
  "resolveVertical solids p = foldl (\<lambda>q platform. resolveVertical1 platform q) p solids"

text \<open>The player after the movement part of a playing frame, in the order of the source.\<close>

definition stepPlayer :: "real \<Rightarrow> game \<Rightarrow> player" where
  "stepPlayer deltaTime g =
     (let p0 = (if ENABLE_GRAVITY_ZONES then updateGravityTimers deltaTime (player g)
                else player g);
          p1 = applyControls (keys g) p0;
          p2 = applyGravity deltaTime p1;
          p3 = moveHorizontal (canvasWidth g) deltaTime p2;
          p4 = resolveHorizontal (platforms g) p3;
          p5 = resolveHorizontal (invisiblePlatforms g) p4;
          p6 = moveVertical deltaTime p5;
          p7 = resolveVertical (platforms g) p6
      in resolveVertical (invisiblePlatforms g) p7)"

section \<open>The frame update\<close>

text \<open>
  The playing branch of \<open>update(deltaTime)\<close>, reached when no transition runs, the state is
  \<open>'playing'\<close>, the player is alive and the window has focus.
\<close>

definition updatePlaying :: "real \<Rightarrow> game \<Rightarrow> game" where
  "updatePlaying deltaTime g =
     (let g1 = (if \<not> isDead g then g\<lparr>levelTime := levelTime g + deltaTime\<rparr> else g);
          p = stepPlayer deltaTime g1;
          spikes1 = checkSpikeTriggers p (spikes g1);
          (zones1, pz) = (if ENABLE_GRAVITY_ZONES
                          then checkGravityZones deltaTime (gravityZones g1) p
                          else (gravityZones g1, p));
          spikes2 = updateMovingSpikes deltaTime spikes1;
          g2 = g1\<lparr>player := pz, spikes := spikes2, gravityZones := zones1\<rparr>;
          g3 = foldl (\<lambda>h spike. if checkCollision (player h) spike then die h else h)
                     g2 (spikes g2);
          g4 = (case door g3 of
                  None \<Rightarrow> g3
                | Some d \<Rightarrow> if checkCollision (player g3) d then completeLevel g3 else g3)
      in if y (player g4) > canvasHeight g4 + 100 then die g4 else g4)"

text \<open>
  \<open>update(deltaTime)\<close>: the fade transitions, the states that do nothing, the
  level-complete timer, the death flash, and the playing branch. The comparison
  \<open>currentLevelInChapter < chapters[currentChapter].levels.length - 1\<close> is made on
  integers, since the right side is -1 for a chapter without levels.
\<close>

definition update :: "real \<Rightarrow> game \<Rightarrow> js_error + game" where
  "update deltaTime g =
     (if transitionState g = FadeOut then
        (let g1 = g\<lparr>transitionAlpha := transitionAlpha g + transitionSpeed * deltaTime\<rparr>
         in Inr (if transitionAlpha g1 \<ge> 1
                 then g1\<lparr>transitionAlpha := 1, transitionState := FadeIn,
                         gameState := pendingGameState g1, pendingGameState := None\<rparr>
                 else g1))
      else if transitionState g = FadeIn then
        (let g1 = g\<lparr>transitionAlpha := transitionAlpha g - transitionSpeed * deltaTime\<rparr>
         in Inr (if transitionAlpha g1 \<le> 0
                 then g1\<lparr>transitionAlpha := 0, transitionState := NoTransition\<rparr>
                 else g1))
      else if gameState g = Some Menu then Inr g
      else if gameState g = Some Settings then Inr g
      else if gameState g = Some ChapterSelect then Inr g
      else if gameState g = Some LevelSelect then Inr g
      else if gameState g = Some Paused then Inr g
      else if gameState g = Some LevelComplete then
        (let g1 = g\<lparr>levelCompleteTimer := levelCompleteTimer g - deltaTime\<rparr>
         in if levelCompleteTimer g1 \<le> 0 then
              (case js_index (chapters g1) (currentChapter g1) of
                 None \<Rightarrow> Inl TypeError
               | Some chapterData \<Rightarrow>
                   if int (currentLevelInChapter g1) < int (length (chapterLevels chapterData)) - 1
                   then loadLevelFromChapter (currentChapter g1) (currentLevelInChapter g1 + 1) g1
                   else if int (currentChapter g1) < int (length (chapters g1)) - 1
                   then Inr (g1\<lparr>gameState := Some ChapterSelect, currentChapter := 0,
                                 currentLevel := 0, currentLevelInChapter := 0\<rparr>)
                   else Inr (g1\<lparr>gameState := Some Menu, currentChapter := 0,
                                 currentLevel := 0, currentLevelInChapter := 0\<rparr>))
            else Inr g1)
      else if isDead g then
        (let g1 = g\<lparr>deathFlashTimer := deathFlashTimer g - deltaTime\<rparr>
         in Inr (if deathFlashTimer g1 \<le> 0 then resetPlayer g1 else g1))
      else if gameState g \<noteq> Some Playing then Inr g
      else if isPaused g then Inr g
      else Inr (updatePlaying deltaTime g))"

section \<open>The frame loop\<close>

text \<open>
  \<open>gameLoop(currentTime)\<close> of the gravity-zone version of the game: the delta time handed
  to \<open>update\<close> (none while the window is blurred), and the frame itself.
\<close>

definition gameLoopDelta :: "real \<Rightarrow> game \<Rightarrow> real option" where
  "gameLoopDelta currentTime g =
     (if isPaused g then None else Some ((currentTime - lastTime g) / 1000))"

definition gameLoop :: "real \<Rightarrow> game \<Rightarrow> js_error + game" where
  "gameLoop currentTime g =
     (case gameLoopDelta currentTime g of
        None \<Rightarrow> Inr g
      | Some deltaTime \<Rightarrow> update deltaTime (g\<lparr>lastTime := currentTime\<rparr>))"

text \<open>
  The same function in the two earlier copies of the game (\<open>src/game.js\<close> and the
  2174-line copy), under the comment "Calculate delta time with safety caps".
\<close>

definition gameLoopDelta_capped :: "real \<Rightarrow> game \<Rightarrow> real option" where
  "gameLoopDelta_capped currentTime g =
     (if isPaused g then None
      else let deltaTime = currentTime - lastTime g;
               deltaTime1 = (if deltaTime > 100 then 16.67 else deltaTime)
           in Some (min (deltaTime1 / 1000) 0.1))"

section \<open>Auxiliary predicates and sample objects\<close>

text \<open>The two early returns of \<open>activateGravityZone\<close>, as one predicate on the zone.\<close>

definition activation_refused :: "zone \<Rightarrow> bool" where
  "activation_refused zone \<longleftrightarrow> (oneShot zone \<and> hasActivated zone) \<or> gt0 (cooldownTimer zone)"

text \<open>
  What the zone code leaves alone in the player: the box, \<open>onGround\<close>, and a vertical
  velocity of 0 (it only ever halves \<open>vy\<close>).
\<close>

definition player_kept :: "player \<Rightarrow> player \<Rightarrow> bool" where
  "player_kept p q \<longleftrightarrow>
     x q = x p \<and> y q = y p \<and> width q = width p \<and> height q = height p \<and>
     onGround q = onGround p \<and> (vy p = 0 \<longrightarrow> vy q = 0)"

text \<open>The player as \<open>resetPlayer\<close> builds it at the default spawn point.\<close>

definition sample_player :: player where
  "sample_player =
     \<lparr>x = 75, y = 120, width = 45, height = 45,
      vx = 0, vy = 0, onGround = False, hasJumped = False,
      gravityScale = 1, currentGravityZone = {}, gravityFlipTimer = 0,
      gravityFlipCooldown = 0, gravityLocked = False, lastGravityZone = None,
      hasBeenFlipped = False, gravityIndicatorAlpha = 0\<rparr>"

text \<open>
  A one-shot flip zone over the tiles of column 3, rows 1 and 2, configured with
  \<open>cooldown: 0\<close>, as \<open>parseLevel\<close> builds it.
\<close>

definition sample_zone :: zone where
  "sample_zone =
     \<lparr>x = 180, y = 60, width = 60, height = 120,
      zone_id = 0, type = ''flip'', trigger = ''enter'', duration = None, cooldown = 0,
      oneShot = True, initialActive = False, hasActivated = False,
      visual = \<lparr>color = ''#44ddff'', secondaryColor = ''#ff44dd'', alpha = 0.35,
                stripeAngle = 45, stripeWidth = 8, stripeSpacing = 20, animated = True,
                animSpeed = 40, showArrow = True, glowWhenActive = True\<rparr>,
      sound = \<lparr>enter = ''gravity_flip'', exit = ''gravity_restore''\<rparr>,
      cooldownTimer = None\<rparr>"

text \<open>
  The two tests of \<open>checkSpikeTriggers\<close> by name: the player's box lies across the
  trigger line (\<open>currentlyCrossingLine\<close>), and its vertical span meets the trigger window
  (\<open>withinVerticalBounds\<close>).
\<close>

definition straddlesTriggerLine :: "player \<Rightarrow> spike \<Rightarrow> bool" where
  "straddlesTriggerLine p s \<longleftrightarrow> x p < triggerX s \<and> triggerX s \<le> x p + width p"

definition withinTriggerWindow :: "player \<Rightarrow> spike \<Rightarrow> bool" where
  "withinTriggerWindow p s \<longleftrightarrow>
     triggerY s \<le> y p + height p \<and> y p \<le> triggerY s + triggerHeight s"

text \<open>A spike that has finished its move.\<close>

definition spike_settled :: "spike \<Rightarrow> bool" where
  "spike_settled s \<longleftrightarrow> moved s \<and> \<not> moving s"

text \<open>
  The number of frames of a run in which the spike goes from not triggered to triggered.
\<close>

fun triggerCount :: "(player \<times> real) list \<Rightarrow> spike \<Rightarrow> nat" where
  "triggerCount [] s = 0"
| "triggerCount (f # fs) s =
     (if \<not> triggered s \<and> triggered (checkSpikeTrigger1 (fst f) s) then 1 else 0)
       + triggerCount fs (spikeFrame f s)"

text \<open>
  The trigger rule in the words of the specification: the player's leading (right) edge
  was before the trigger line in the previous frame and is at or past it in this frame.
  The program keeps no previous position; this predicate is only compared with it.
\<close>

definition edgeCrossedThisFrame :: "player \<Rightarrow> player \<Rightarrow> spike \<Rightarrow> bool" where
  "edgeCrossedThisFrame before now s \<longleftrightarrow>
     x before + width before < triggerX s \<and> triggerX s \<le> x now + width now"

text \<open>
  A solid tile, and the spike that \<open>parseLevel\<close> builds for the glyph \<open>2\<close> at row 3,
  column 3 with trigger offset 1 and trigger length 80 on a canvas 600 high.
\<close>

definition sample_platform :: rect where
  "sample_platform = \<lparr>x = 60, y = 120, width = 60, height = 60\<rparr>"

definition sample_spike :: spike where
  "sample_spike =
     \<lparr>x = 180, y = 200, width = 60, height = 40,
      originalX = 180, moveDistance = 120,
      triggerX = 120, triggerY = 120, triggerHeight = 80,
      triggerOffset = 1, triggerLength = Some 80,
      triggered = False, moved = False, moving = False, moveTimer = 0\<rparr>"

text \<open>
  The player standing across the trigger line of that spike, first above its trigger
  window and then inside it.
\<close>

definition frame_above :: player where
  "frame_above = sample_player\<lparr>x := 100, y := 70\<rparr>"

definition frame_inside :: player where
  "frame_inside = sample_player\<lparr>x := 100, y := 100\<rparr>"

text \<open>A level with two spikes and a gravity zone, its chapter, and a game in the playing state.\<close>

definition sample_level :: level where
  "sample_level =
     \<lparr>levelName = ''Sample'',
      levelMap = [''.....'', ''S.2G.'', ''##3GD''],
      spikeTriggers = Some [2],
      spikeTriggerLengths = Some [None],
      levelGravityZones =
        Some [emptyConfig\<lparr>cfg_cooldown := Some 0, cfg_oneShot := Some True\<rparr>]\<rparr>"

definition sample_chapter :: chapter_data where
  "sample_chapter =
     \<lparr>chapterGravityZones = None, chapterLevels = [sample_level], bonusLevel = None\<rparr>"

definition sample_game :: game where
  "sample_game =
     \<lparr>chapters = [sample_chapter], canvasWidth = 1200, canvasHeight = 600,
      gameState = Some Playing, currentChapter = 0, currentLevel = 0,
      currentLevelInChapter = 0, player = sample_player,
      platforms = [], fakeBlocks = [], invisiblePlatforms = [], spikes = [],
      gravityZones = [], door = None, spawnPoint = None,
      deaths = 0, levelDeaths = 0, levelTime = 0, isDead = False, deathFlashTimer = 0,
      levelCompleteTimer = 0, transitionState = NoTransition, transitionAlpha = 0,
      pendingGameState = None, completedLevels = {}, levelStars = Map.empty,
      keys = \<lparr>left = False, right = False, space = False\<rparr>,
      isPaused = False, lastTime = 0\<rparr>"

text \<open>
  The seven results of a parse, the six of them that the first scan writes (copied from
  one state into another, and compared between two states together with the canvas
  height the scan reads), and the state the scan starts from and ends in.
\<close>

definition geometry ::
  "game \<Rightarrow> rect list \<times> rect list \<times> rect list \<times> spike list \<times> rect option \<times> (real \<times> real) option \<times> zone list" where
  "geometry g =
     (platforms g, fakeBlocks g, invisiblePlatforms g, spikes g, door g, spawnPoint g,
      gravityZones g)"

definition put6 :: "game \<Rightarrow> game \<Rightarrow> game" where
  "put6 g r =
     g\<lparr>platforms := platforms r, fakeBlocks := fakeBlocks r,
       invisiblePlatforms := invisiblePlatforms r, spikes := spikes r,
       door := door r, spawnPoint := spawnPoint r\<rparr>"

definition agree6 :: "game \<Rightarrow> game \<Rightarrow> bool" where
  "agree6 g h \<longleftrightarrow>
     platforms g = platforms h \<and> fakeBlocks g = fakeBlocks h \<and>
     invisiblePlatforms g = invisiblePlatforms h \<and> spikes g = spikes h \<and>
     door g = door h \<and> spawnPoint g = spawnPoint h \<and> canvasHeight g = canvasHeight h"

definition cleared :: "game \<Rightarrow> game" where
  "cleared g = g\<lparr>platforms := [], fakeBlocks := [], invisiblePlatforms := [], spikes := [],
                 door := None, spawnPoint := None\<rparr>"

definition scanned :: "level \<Rightarrow> game \<Rightarrow> game" where
  "scanned levelData g =
     fst (parseRows (defined_or (spikeTriggers levelData) [])
            (defined_or (spikeTriggerLengths levelData) []) 0 (levelMap levelData) (cleared g, 0))"

text \<open>
  The scan invariant: the counter \<open>spikeIndex\<close> is the number of spikes pushed so far, and
  the spike at position \<open>i\<close> of the list was built with \<open>spikeIndex = i\<close>.
\<close>

definition spikes_in_discovery_order :: "real list \<Rightarrow> real option list \<Rightarrow> game \<times> nat \<Rightarrow> bool" where
  "spikes_in_discovery_order ct ctl st \<longleftrightarrow>
     snd st = length (spikes (fst st)) \<and>
     (\<forall>i < length (spikes (fst st)).
        \<exists>tx ty c. spikes (fst st) ! i = makeSpike (canvasHeight (fst st)) ct ctl i tx ty c)"

text \<open>What \<open>parseLevel\<close> makes of the sample level.\<close>

definition sample_spikes :: "spike list" where
  "sample_spikes =
     [\<lparr>x = 120, y = 80, width = 60, height = 40, originalX = 120,
          moveDistance = 120, triggerX = 0, triggerY = 0,
          triggerHeight = 600, triggerOffset = 2, triggerLength = None,
          triggered = False, moved = False, moving = False, moveTimer = 0\<rparr>,
       \<lparr>x = 120, y = 140, width = 60, height = 40, originalX = 120,
          moveDistance = 180, triggerX = 150, triggerY = 0,
          triggerHeight = 600, triggerOffset = - (1 / 2),
          triggerLength = None, triggered = False, moved = False,
          moving = False, moveTimer = 0\<rparr>]"

definition sample_parsed :: game where
  "sample_parsed =
     sample_game\<lparr>platforms := [\<lparr>x = 0, y = 120, width = 60, height = 60\<rparr>,
                                \<lparr>x = 60, y = 120, width = 60, height = 60\<rparr>],
                  spikes := sample_spikes,
                  door := Some \<lparr>x = 240, y = 120, width = 60, height = 60\<rparr>,
                  spawnPoint := Some (15, 60),
                  gravityZones := [sample_zone]\<rparr>"

text \<open>
  A game in the playing state whose player rests on top of the solid tile, with no key
  held.
\<close>

definition resting_game :: game where
  "resting_game =
     sample_game\<lparr>platforms := [sample_platform],
                  player := sample_player\<lparr>y := 75, onGround := True\<rparr>\<rparr>"

text \<open>
  The spike animation by its two quantities. \<open>moveProgress t ds\<close> is the \<open>moveTimer\<close> of a
  moving spike that starts at \<open>t\<close> and lives through frames of the delta times \<open>ds\<close>: each
  frame adds the rounded \<open>deltaTime * 5\<close>, and the first sum that reaches 1 ends the move
  with the timer set to 1. \<open>spikeX s t\<close> is the position the loop assigns at timer \<open>t\<close>.
\<close>

fun moveProgress :: "real \<Rightarrow> real list \<Rightarrow> real" where
  "moveProgress t [] = t"
| "moveProgress t (d # ds) =
     (if 1 \<le> fl (t + fl (d * 5)) then 1 else moveProgress (fl (t + fl (d * 5))) ds)"

definition spikeX :: "spike \<Rightarrow> real \<Rightarrow> real" where
  "spikeX s t =
     fl (originalX s + fl (fl (fl (originalX s + moveDistance s) - originalX s) * t))"

text \<open>
  The branches of \<open>update\<close> that touch the spikes, by their conditions: the playing
  branch, the respawn at the end of the death flash, and the load of the next level at
  the end of the level-complete timer.
\<close>

definition playsFrame :: "game \<Rightarrow> bool" where
  "playsFrame g \<longleftrightarrow>
     transitionState g = NoTransition \<and> gameState g = Some Playing \<and> \<not> isDead g \<and>
     \<not> isPaused g"

definition respawns :: "real \<Rightarrow> game \<Rightarrow> bool" where
  "respawns deltaTime g \<longleftrightarrow>
     transitionState g = NoTransition \<and>
     gameState g \<notin> {Some Menu, Some Settings, Some ChapterSelect, Some LevelSelect,
                     Some Paused, Some LevelComplete} \<and>
     isDead g \<and> deathFlashTimer g - deltaTime \<le> 0"

definition loadsNextLevel :: "real \<Rightarrow> game \<Rightarrow> bool" where
  "loadsNextLevel deltaTime g \<longleftrightarrow>
     transitionState g = NoTransition \<and> gameState g = Some LevelComplete \<and>
     levelCompleteTimer g - deltaTime \<le> 0 \<and>
     (case js_index (chapters g) (currentChapter g) of
        None \<Rightarrow> False
      | Some chapterData \<Rightarrow>
          int (currentLevelInChapter g) < int (length (chapterLevels chapterData)) - 1)"

text \<open>
  Ten frames of \<open>deltaTime = 0.02\<close> (the double written so), the player inside the trigger
  window of the sample spike in the first of them.
\<close>

definition ten_frames :: "(player \<times> real) list" where
  "ten_frames = (frame_inside, fl (2 / 100)) # replicate 9 (frame_above, fl (2 / 100))"

section \<open>Properties of the rounding\<close>

text \<open>
  The integer computation of the exponent gives \<open>\<lfloor>log 2 a\<rfloor>\<close>, and integers below
  \<open>2 ^ 53\<close> in magnitude are rounded to themselves.
\<close>

lemma ilog2_ge1:
  assumes "1 \<le> a"
  shows "ilog2 a = \<lfloor>log 2 a\<rfloor>"
proof -
  define n where "n = nat \<lfloor>a\<rfloor>"
  have n: "0 < n" "real n \<le> a" "a < real n + 1"
    using assms by (auto simp: n_def)
  define k where "k = floorlog 2 n"
  have k: "0 < k" "2 ^ (k - 1) \<le> n" "n < 2 ^ k"
    using floorlog_bounds[of n 2] n(1) by (auto simp: k_def floorlog_eq_zero_iff intro: Nat.gr0I)
  have lo: "(2::real) ^ (k - 1) \<le> a"
    using k(2) n(2) by (metis (mono_tags) of_nat_le_iff of_nat_numeral of_nat_power order_trans)
  have "n + 1 \<le> 2 ^ k" using k(3) by simp
  then have "real n + 1 \<le> 2 ^ k"
    by (metis (mono_tags) of_nat_le_iff of_nat_numeral of_nat_power of_nat_add of_nat_1)
  then have hi: "a < 2 ^ k" using n(3) by linarith
  have "\<lfloor>log 2 a\<rfloor> = int k - 1"
    using assms lo hi k(1)
    by (subst floor_log_eq_powr_iff) (auto simp: powr_realpow[symmetric] of_nat_diff)
  then show ?thesis using assms by (simp add: ilog2_def n_def k_def)
qed

lemma ilog2_lt1:
  assumes "0 < a" "a < 1"
  shows "ilog2 a = \<lfloor>log 2 a\<rfloor>"
proof -
  define m where "m = nat (\<lceil>1 / a\<rceil> - 1)"
  have y: "1 < 1 / a" using assms by simp
  then have c: "2 \<le> \<lceil>1 / a\<rceil>" by linarith
  have m: "0 < m" "real m < 1 / a" "1 / a \<le> real m + 1"
    using c by (auto simp: m_def) linarith+
  define k where "k = floorlog 2 m"
  have k: "0 < k" "2 ^ (k - 1) \<le> m" "m < 2 ^ k"
    using floorlog_bounds[of m 2] m(1) by (auto simp: k_def floorlog_eq_zero_iff intro: Nat.gr0I)
  have "(2::real) ^ (k - 1) \<le> real m"
    using k(2) by (metis (mono_tags) of_nat_le_iff of_nat_numeral of_nat_power)
  then have lo: "(2::real) ^ (k - 1) < 1 / a" using m(2) by linarith
  have "m + 1 \<le> 2 ^ k" using k(3) by simp
  then have "real m + 1 \<le> 2 ^ k"
    by (metis (mono_tags) of_nat_le_iff of_nat_numeral of_nat_power of_nat_add of_nat_1)
  then have hi: "1 / a \<le> 2 ^ k" using m(3) by linarith
  have a1: "1 / 2 ^ k \<le> a"
    using hi assms(1) by (simp add: field_simps)
  have a2: "a < 1 / 2 ^ (k - 1)"
    using lo assms(1) by (simp add: field_simps)
  have p1: "2 powr (- real k) = 1 / 2 ^ k"
    by (simp add: powr_minus powr_realpow field_simps)
  have p2: "2 powr (- real k + 1) = 1 / 2 ^ (k - 1)"
  proof -
    have "- real k + 1 = - real (k - 1)" using k(1) by (simp add: of_nat_diff)
    then have "2 powr (- real k + 1) = 2 powr (- real (k - 1))" by (simp only:)
    also have "\<dots> = 1 / 2 ^ (k - 1)"
      by (simp only: powr_minus powr_realpow zero_less_numeral inverse_eq_divide)
    finally show ?thesis .
  qed
  have q1: "2 powr real_of_int (- int k) = 1 / 2 ^ k" using p1 by simp
  have "real_of_int (- int k + 1) = - real k + 1" by simp
  then have q2: "2 powr real_of_int (- int k + 1) = 1 / 2 ^ (k - 1)" using p2 by (simp only:)
  have "\<lfloor>log 2 a\<rfloor> = - int k \<longleftrightarrow>
        2 powr real_of_int (- int k) \<le> a \<and> a < 2 powr real_of_int (- int k + 1)"
    by (rule floor_log_eq_powr_iff) (use assms in simp_all)
  then have "\<lfloor>log 2 a\<rfloor> = - int k"
    unfolding q1 q2 using a1 a2 by simp
  then show ?thesis using assms by (simp add: ilog2_def m_def k_def)
qed

lemma ilog2_floor_log: "0 < a \<Longrightarrow> ilog2 a = \<lfloor>log 2 a\<rfloor>"
  using ilog2_ge1[of a] ilog2_lt1[of a] by (cases "1 \<le> a") auto


lemma roundTiesToEven_of_int: "roundTiesToEven (of_int m) = m"
  by (simp add: roundTiesToEven_def)

lemma fl_of_int:
  assumes "\<bar>n\<bar> < 2 ^ 53"
  shows "fl (of_int n) = of_int n"
proof (cases "n = 0")
  case True
  then show ?thesis by (simp add: fl_def)
next
  case False
  define a where "a = \<bar>real_of_int n\<bar>"
  have aa: "a = real_of_int \<bar>n\<bar>" by (simp add: a_def)
  have "1 \<le> \<bar>n\<bar>" using False by simp
  then have a1: "1 \<le> a" unfolding aa by (metis of_int_1_le_iff)
  have a2: "a < 2 ^ 53" unfolding aa using assms by (metis of_int_less_numeral_power_cancel_iff)
  note a = a1 a2
  define k where "k = \<lfloor>log 2 a\<rfloor>"
  have k0: "0 \<le> k" unfolding k_def using a(1) by simp
  have "log 2 a < 53"
    using a by (simp add: log_less_iff powr_realpow[symmetric])
  then have k52: "k \<le> 52" unfolding k_def by linarith
  define j where "j = nat (52 - k)"
  have e: "max (ilog2 a - 52) (- 1074) = - int j"
    using k0 k52 a(1) by (simp add: ilog2_floor_log k_def[symmetric] j_def)
  have d: "real_of_int n / 2 powi (- int j) = of_int (n * 2 ^ j)"
    by (simp add: power_int_minus field_simps)
  have "fl (of_int n) = of_int (roundTiesToEven (real_of_int n / 2 powi (- int j))) * 2 powi (- int j)"
    using False by (simp add: fl_def a_def[symmetric] e Let_def)
  also have "\<dots> = of_int (n * 2 ^ j) * 2 powi (- int j)"
    by (simp only: d roundTiesToEven_of_int)
  also have "\<dots> = of_int n"
    by (simp add: power_int_minus field_simps)
  finally show ?thesis .
qed

text \<open>
  A rounding is off by at most half a unit in the last place: by \<open>2 ^ - 53\<close> of the
  value, or by \<open>2 ^ - 1075\<close> among the subnormal numbers. So a frame of the moving-spike
  loop adds \<open>5 * deltaTime\<close> to the timer up to \<open>2 ^ - 50\<close>, and a run of \<open>n\<close> frames
  up to \<open>n * 2 ^ - 50\<close>.
\<close>

lemma round_error: "\<bar>real_of_int (roundTiesToEven r) - r\<bar> \<le> 1 / 2"
  unfolding roundTiesToEven_def Let_def by (auto; linarith)

lemma round_nonneg: "0 \<le> r \<Longrightarrow> 0 \<le> roundTiesToEven r"
  unfolding roundTiesToEven_def Let_def by (auto; linarith)


lemma powi_ilog2_le:
  assumes "0 < a"
  shows "2 powi (ilog2 a) \<le> a"
proof -
  have "(2::real) powr real_of_int \<lfloor>log 2 a\<rfloor> \<le> 2 powr log 2 a"
    by (rule powr_mono) simp_all
  then show ?thesis using assms by (simp add: ilog2_floor_log powr_real_of_int')
qed

lemma fl_error: "\<bar>fl v - v\<bar> \<le> \<bar>v\<bar> / 2 ^ 53 + 1 / 2 ^ 1075"
proof (cases "v = 0")
  case True
  then show ?thesis by (simp add: fl_def)
next
  case False
  define e where "e = max (ilog2 \<bar>v\<bar> - 52) (- 1074)"
  define r where "r = v / 2 powi e"
  have p: "(0::real) < 2 powi e" by simp
  have v: "v = r * 2 powi e" by (simp add: r_def)
  have f: "fl v = of_int (roundTiesToEven r) * 2 powi e"
    using False by (simp add: fl_def Let_def e_def r_def)
  have "fl v - r * 2 powi e = (of_int (roundTiesToEven r) - r) * 2 powi e"
    unfolding f by (simp add: algebra_simps)
  then have "fl v - v = (of_int (roundTiesToEven r) - r) * 2 powi e"
    using v by simp
  then have "\<bar>fl v - v\<bar> = \<bar>of_int (roundTiesToEven r) - r\<bar> * 2 powi e"
    by (simp add: abs_mult)
  also have "\<dots> \<le> 1 / 2 * 2 powi e"
    by (rule mult_right_mono[OF round_error]) simp
  finally have b: "\<bar>fl v - v\<bar> \<le> 2 powi e / 2" by simp
  have "2 powi e \<le> \<bar>v\<bar> / 2 ^ 52 \<or> (2::real) powi e = 1 / 2 ^ 1074"
  proof (cases "ilog2 \<bar>v\<bar> - 52 \<ge> - 1074")
    case True
    then have "e = ilog2 \<bar>v\<bar> - 52" by (simp add: e_def)
    then have "(2::real) powi e = 2 powi (ilog2 \<bar>v\<bar>) / 2 ^ 52"
      by (simp add: power_int_diff)
    moreover have "2 powi (ilog2 \<bar>v\<bar>) \<le> \<bar>v\<bar>" using False by (intro powi_ilog2_le) simp
    ultimately show ?thesis by (simp add: divide_right_mono)
  next
    case False
    then have "e = - 1074" by (simp add: e_def)
    then show ?thesis by (simp add: power_int_minus field_simps)
  qed
  then show ?thesis using b by (auto simp: field_simps)
qed

lemma fl_nonneg: "0 \<le> v \<Longrightarrow> 0 \<le> fl v"
  using round_nonneg[of "v / 2 powi (max (ilog2 \<bar>v\<bar> - 52) (- 1074))"]
  by (simp add: fl_def Let_def)


lemma fl_error_small: "\<bar>fl v - v\<bar> \<le> \<bar>v\<bar> / 2 ^ 53 + 1 / 2 ^ 54"
proof -
  have "(1::real) / 2 ^ 1075 \<le> 1 / 2 ^ 54" by simp
  then show ?thesis using fl_error[of v] by linarith
qed

lemma timer_step_moving:
  assumes "0 \<le> d" "0 \<le> t" "fl (t + fl (d * 5)) < 1"
  shows "\<bar>fl (t + fl (d * 5)) - (t + 5 * d)\<bar> \<le> 1 / 2 ^ 50"
proof -
  define a where "a = fl (d * 5)"
  define T where "T = fl (t + a)"
  have a0: "0 \<le> a" unfolding a_def using assms(1) by (intro fl_nonneg) simp
  have e1: "\<bar>a - d * 5\<bar> \<le> (d * 5) / 9007199254740992 + 1 / 18014398509481984"
    using fl_error_small[of "d * 5"] assms(1) by (simp add: a_def)
  have e2: "\<bar>T - (t + a)\<bar> \<le> (t + a) / 9007199254740992 + 1 / 18014398509481984"
    using fl_error_small[of "t + a"] assms(2) a0 by (simp add: T_def)
  have T1: "T < 1" using assms(3) by (simp add: T_def a_def)
  have s2: "t + a < 2" using e2 T1 by argo
  have d4: "d * 5 < 4" using e1 s2 assms(2) by argo
  have "\<bar>T - (t + 5 * d)\<bar> \<le> 1 / 1125899906842624"
    using e1 e2 s2 d4 assms(1,2) a0 by argo
  then show ?thesis by (simp add: T_def a_def)
qed

lemma timer_step_done:
  assumes "0 \<le> d" "0 \<le> t" "1 \<le> fl (t + fl (d * 5))"
  shows "1 - 1 / 2 ^ 50 \<le> t + 5 * d"
proof -
  define a where "a = fl (d * 5)"
  define T where "T = fl (t + a)"
  have a0: "0 \<le> a" unfolding a_def using assms(1) by (intro fl_nonneg) simp
  have e1: "\<bar>a - d * 5\<bar> \<le> (d * 5) / 9007199254740992 + 1 / 18014398509481984"
    using fl_error_small[of "d * 5"] assms(1) by (simp add: a_def)
  have e2: "\<bar>T - (t + a)\<bar> \<le> (t + a) / 9007199254740992 + 1 / 18014398509481984"
    using fl_error_small[of "t + a"] assms(2) a0 by (simp add: T_def)
  have T1: "1 \<le> T" using assms(3) by (simp add: T_def a_def)
  have "1 - 1 / 1125899906842624 \<le> t + 5 * d"
  proof (cases "d * 5 \<le> 4")
    case True
    then show ?thesis using e1 e2 T1 assms(1,2) a0 by argo
  next
    case False
    then show ?thesis using assms(2) by argo
  qed
  then show ?thesis by simp
qed

lemma moveProgress_le1: "t \<le> 1 \<Longrightarrow> moveProgress t ds \<le> 1"
  by (induction ds arbitrary: t) simp_all

lemma moveProgress_bounds:
  assumes "\<forall>d \<in> set ds. 0 \<le> d" "0 \<le> t" "t < 1"
  shows "(moveProgress t ds < 1 \<longrightarrow>
            \<bar>moveProgress t ds - (t + 5 * sum_list ds)\<bar> \<le> real (length ds) / 2 ^ 50) \<and>
         (1 \<le> moveProgress t ds \<longrightarrow>
            1 - real (length ds) / 2 ^ 50 \<le> t + 5 * sum_list ds)"
  using assms
proof (induction ds arbitrary: t)
  case Nil
  then show ?case by simp
next
  case (Cons d ds)
  let ?T = "fl (t + fl (d * 5))"
  let ?n = "real (length ds) / 2 ^ 50"
  have d0: "0 \<le> d" and ds0: "\<forall>d \<in> set ds. 0 \<le> d" using Cons.prems(1) by simp_all
  have sum0: "0 \<le> sum_list ds" by (rule sum_list_nonneg) (use ds0 in auto)
  have T0: "0 \<le> ?T"
    by (intro fl_nonneg add_nonneg_nonneg) (use Cons.prems(2) d0 in simp_all)
  have n0: "0 \<le> ?n" by simp
  have len: "real (length (d # ds)) / 2 ^ 50 = 1 / 2 ^ 50 + ?n"
    by (simp add: add_divide_distrib)
  have sum: "sum_list (d # ds) = d + sum_list ds" by simp
  show ?case
  proof (cases "1 \<le> ?T")
    case True
    have "1 - 1 / 2 ^ 50 \<le> t + 5 * d" by (rule timer_step_done[OF d0 Cons.prems(2) True])
    then have "1 - (1 / 2 ^ 50 + ?n) \<le> t + 5 * (d + sum_list ds)"
      using sum0 n0 by argo
    then show ?thesis unfolding len sum using True by simp
  next
    case False
    then have lt: "?T < 1" by simp
    have st: "\<bar>?T - (t + 5 * d)\<bar> \<le> 1 / 2 ^ 50"
      by (rule timer_step_moving[OF d0 Cons.prems(2) lt])
    note ih = Cons.IH[OF ds0 T0 lt]
    have m: "moveProgress t (d # ds) = moveProgress ?T ds" using False by simp
    have a: "\<bar>moveProgress ?T ds - (t + 5 * (d + sum_list ds))\<bar> \<le> 1 / 2 ^ 50 + ?n"
      if "moveProgress ?T ds < 1"
      using conjunct1[OF ih] st that by argo
    have b: "1 - (1 / 2 ^ 50 + ?n) \<le> t + 5 * (d + sum_list ds)"
      if "1 \<le> moveProgress ?T ds"
      using conjunct2[OF ih] st that by argo
    show ?thesis unfolding m len sum using a b by blast
  qed
qed

text \<open>The rounding of a numeral is computed by unfolding these.\<close>

lemmas fl_eval = fl_def ilog2_def roundTiesToEven_def compute_floorlog Let_def

lemma fl_two_hundredths: "fl (2 / 100) = 5764607523034235 / 288230376151711744"
  by (simp add: fl_eval)

lemma moveProgress_ten:
  "moveProgress 0 (replicate 10 (5764607523034235 / 288230376151711744)) = 9007199254740991 / 9007199254740992"
proof -
  let ?d = "5764607523034235 / 288230376151711744 :: real"
  let ?a = "3602879701896397 / 36028797018963968 :: real"
  have a: "fl (?d * 5) = ?a" by (simp add: fl_eval)
  have s1: "fl (0 + ?a) = 3602879701896397 / 36028797018963968" "\<not> (1::real) \<le> 3602879701896397 / 36028797018963968" by (simp_all add: fl_eval)
  have s2: "fl (3602879701896397 / 36028797018963968 + ?a) = 3602879701896397 / 18014398509481984" "\<not> (1::real) \<le> 3602879701896397 / 18014398509481984" by (simp_all add: fl_eval)
  have s3: "fl (3602879701896397 / 18014398509481984 + ?a) = 1351079888211149 / 4503599627370496" "\<not> (1::real) \<le> 1351079888211149 / 4503599627370496" by (simp_all add: fl_eval)
  have s4: "fl (1351079888211149 / 4503599627370496 + ?a) = 3602879701896397 / 9007199254740992" "\<not> (1::real) \<le> 3602879701896397 / 9007199254740992" by (simp_all add: fl_eval)
  have s5: "fl (3602879701896397 / 9007199254740992 + ?a) = 1 / 2" "\<not> (1::real) \<le> 1 / 2" by (simp_all add: fl_eval)
  have s6: "fl (1 / 2 + ?a) = 5404319552844595 / 9007199254740992" "\<not> (1::real) \<le> 5404319552844595 / 9007199254740992" by (simp_all add: fl_eval)
  have s7: "fl (5404319552844595 / 9007199254740992 + ?a) = 3152519739159347 / 4503599627370496" "\<not> (1::real) \<le> 3152519739159347 / 4503599627370496" by (simp_all add: fl_eval)
  have s8: "fl (3152519739159347 / 4503599627370496 + ?a) = 7205759403792793 / 9007199254740992" "\<not> (1::real) \<le> 7205759403792793 / 9007199254740992" by (simp_all add: fl_eval)
  have s9: "fl (7205759403792793 / 9007199254740992 + ?a) = 2026619832316723 / 2251799813685248" "\<not> (1::real) \<le> 2026619832316723 / 2251799813685248" by (simp_all add: fl_eval)
  have s10: "fl (2026619832316723 / 2251799813685248 + ?a) = 9007199254740991 / 9007199254740992" "\<not> (1::real) \<le> 9007199254740991 / 9007199254740992" by (simp_all add: fl_eval)
  have r: "replicate 10 ?d = [?d, ?d, ?d, ?d, ?d, ?d, ?d, ?d, ?d, ?d]"
    by (simp add: numeral_eq_Suc)
  show ?thesis
    unfolding r by (simp only: moveProgress.simps a s1 s2 s3 s4 s5 s6 s7 s8 s9 s10 if_False)
qed


lemma error_mono:
  fixes e :: real
  assumes "e \<le> s / 9007199254740992 + 1 / 18014398509481984" "s \<le> s'"
  shows "e \<le> s' / 9007199254740992 + 1 / 18014398509481984"
  using assms by linarith

lemma interpolation_error:
  assumes "\<bar>a\<bar> < 2 ^ 52" "\<bar>b\<bar> < 2 ^ 52" "0 \<le> t" "t \<le> 1"
  shows "fl (fl (of_int a + of_int b) - of_int a) = of_int b"
    and "\<bar>fl (of_int a + fl (of_int b * t)) - (of_int a + of_int b * t)\<bar>
           \<le> (\<bar>of_int a\<bar> + \<bar>of_int b\<bar> + 1) / 2 ^ 52"
proof -
  have ab: "\<bar>a + b\<bar> < 2 ^ 53" "\<bar>b\<bar> < 2 ^ 53"
    using assms(1,2) by simp_all
  have "fl (of_int a + of_int b) = of_int (a + b)"
    using fl_of_int[OF ab(1)] by simp
  then show "fl (fl (of_int a + of_int b) - of_int a) = of_int b"
    using fl_of_int[OF ab(2)] by simp
  define A where "A = \<bar>real_of_int a\<bar>"
  define B where "B = \<bar>real_of_int b\<bar>"
  define m where "m = fl (of_int b * t)"
  define r where "r = fl (of_int a + m)"
  have "real_of_int \<bar>b\<bar> < 2 ^ 52"
    using assms(2) by (simp only: of_int_less_numeral_power_cancel_iff)
  then have B52: "B < 4503599627370496" by (simp add: B_def)
  have B0: "0 \<le> B" by (simp add: B_def)
  have "\<bar>of_int b * t\<bar> = B * t" using assms(3) by (simp add: B_def abs_mult)
  also have "\<dots> \<le> B * 1" by (rule mult_left_mono[OF assms(4) B0])
  finally have bt: "\<bar>of_int b * t\<bar> \<le> B" by simp
  have "\<bar>m - of_int b * t\<bar> \<le> \<bar>of_int b * t\<bar> / 9007199254740992 + 1 / 18014398509481984"
    using fl_error_small[of "of_int b * t"] by (simp add: m_def)
  then have e1: "\<bar>m - of_int b * t\<bar> \<le> B / 9007199254740992 + 1 / 18014398509481984"
    using bt by (rule error_mono)
  have m1: "\<bar>m\<bar> \<le> B + 1" using e1 bt B0 B52 by linarith
  have am: "\<bar>of_int a + m\<bar> \<le> A + B + 1" using m1 by (simp add: A_def)
  have "\<bar>r - (of_int a + m)\<bar> \<le> \<bar>of_int a + m\<bar> / 9007199254740992 + 1 / 18014398509481984"
    using fl_error_small[of "of_int a + m"] by (simp add: r_def)
  then have e2: "\<bar>r - (of_int a + m)\<bar> \<le> (A + B + 1) / 9007199254740992 + 1 / 18014398509481984"
    using am by (rule error_mono)
  have A0: "0 \<le> A" by (simp add: A_def)
  have "\<bar>r - (of_int a + of_int b * t)\<bar> \<le> \<bar>r - (of_int a + m)\<bar> + \<bar>m - of_int b * t\<bar>"
    by linarith
  also have "\<dots> \<le> (A + B + 1) / 9007199254740992 + 1 / 18014398509481984
                    + (B / 9007199254740992 + 1 / 18014398509481984)"
    by (rule add_mono[OF e2 e1])
  also have "\<dots> \<le> (A + B + 1) / 4503599627370496"
    using A0 B0 by argo
  finally show "\<bar>fl (of_int a + fl (of_int b * t)) - (of_int a + of_int b * t)\<bar>
           \<le> (\<bar>of_int a\<bar> + \<bar>of_int b\<bar> + 1) / 2 ^ 52"
    by (simp add: r_def m_def A_def B_def)
qed

section \<open>Properties of the gravity zones\<close>

lemma activate_refused: "activation_refused zone \<Longrightarrow> activateGravityZone zone p = (zone, p)"
  unfolding activation_refused_def
  by (cases "oneShot zone \<and> hasActivated zone") (simp_all add: activateGravityZone_def)

lemma switch_flip:
  "t = ''flip'' \<or> t = ''toggle'' \<Longrightarrow>
   (if t = ''flip'' then a else if t = ''toggle'' then a else if t = ''momentary'' then b else c) = a"
  by auto

lemma switch_momentary:
  "t = ''momentary'' \<Longrightarrow>
   (if t = ''flip'' then a else if t = ''toggle'' then a else if t = ''momentary'' then b else c) = b"
  by auto

lemma activate_flip:
  assumes "\<not> activation_refused zone" "type zone = ''flip'' \<or> type zone = ''toggle''"
  shows "activateGravityZone zone p =
     (if gravityScale p \<noteq> 0 then
        (zone\<lparr>cooldownTimer := Some (if cooldown zone \<noteq> 0 then cooldown zone else 1),
               hasActivated := True\<rparr>,
         p\<lparr>gravityScale := - gravityScale p,
            gravityFlipTimer := (if truthy_num (duration zone) then the (duration zone) else gravityFlipTimer p),
            hasBeenFlipped := True, gravityIndicatorAlpha := 1, vy := vy p / 2\<rparr>)
      else (zone, p))"
proof -
  have g: "\<not> (oneShot zone \<and> hasActivated zone)" "\<not> gt0 (cooldownTimer zone)"
    using assms(1) by (auto simp: activation_refused_def)
  show ?thesis
    unfolding activateGravityZone_def if_not_P[OF g(1)] if_not_P[OF g(2)] switch_flip[OF assms(2)]
    by (simp add: Let_def)
qed

lemma activate_momentary:
  assumes "\<not> activation_refused zone" "type zone = ''momentary''"
  shows "activateGravityZone zone p =
     (if gravityScale p \<noteq> - 1 then
        (zone\<lparr>cooldownTimer := Some (if cooldown zone \<noteq> 0 then cooldown zone else 1),
               hasActivated := True\<rparr>,
         p\<lparr>gravityScale := - 1,
            gravityFlipTimer := (if truthy_num (duration zone) then the (duration zone) else gravityFlipTimer p),
            hasBeenFlipped := True, gravityIndicatorAlpha := 1, vy := vy p / 2\<rparr>)
      else (zone, p))"
proof -
  have g: "\<not> (oneShot zone \<and> hasActivated zone)" "\<not> gt0 (cooldownTimer zone)"
    using assms(1) by (auto simp: activation_refused_def)
  show ?thesis
    unfolding activateGravityZone_def if_not_P[OF g(1)] if_not_P[OF g(2)] switch_momentary[OF assms(2)]
    by (simp add: Let_def)
qed

lemma activate_other:
  assumes "type zone \<noteq> ''flip''" "type zone \<noteq> ''toggle''" "type zone \<noteq> ''momentary''"
  shows "activateGravityZone zone p = (zone, p)"
  unfolding activateGravityZone_def if_not_P[OF assms(1)] if_not_P[OF assms(2)] if_not_P[OF assms(3)]
  by (simp add: Let_def)

lemma activate_keeps:
  "x (snd (activateGravityZone zone p)) = x p \<and>
   y (snd (activateGravityZone zone p)) = y p \<and>
   width (snd (activateGravityZone zone p)) = width p \<and>
   height (snd (activateGravityZone zone p)) = height p \<and>
   onGround (snd (activateGravityZone zone p)) = onGround p \<and>
   currentGravityZone (snd (activateGravityZone zone p)) = currentGravityZone p \<and>
   gravityLocked (snd (activateGravityZone zone p)) = gravityLocked p \<and>
   (vy p = 0 \<longrightarrow> vy (snd (activateGravityZone zone p)) = 0)"
proof (cases "activation_refused zone")
  case True
  then show ?thesis by (simp add: activate_refused)
next
  case nr: False
  consider (a) "type zone = ''flip'' \<or> type zone = ''toggle''"
    | (b) "type zone = ''momentary''"
    | (c) "type zone \<noteq> ''flip''" "type zone \<noteq> ''toggle''" "type zone \<noteq> ''momentary''"
    by blast
  then show ?thesis
  proof cases
    case a
    show ?thesis unfolding activate_flip[OF nr a] by simp
  next
    case b
    show ?thesis unfolding activate_momentary[OF nr b] by simp
  next
    case c
    then show ?thesis by (simp add: activate_other)
  qed
qed

lemma activate_zone_flags:
  "oneShot (fst (activateGravityZone zone p)) = oneShot zone \<and>
   zone_id (fst (activateGravityZone zone p)) = zone_id zone \<and>
   trigger (fst (activateGravityZone zone p)) = trigger zone \<and>
   type (fst (activateGravityZone zone p)) = type zone \<and>
   (hasActivated zone \<longrightarrow> hasActivated (fst (activateGravityZone zone p)))"
proof (cases "activation_refused zone")
  case True
  then show ?thesis by (simp add: activate_refused)
next
  case nr: False
  consider (a) "type zone = ''flip'' \<or> type zone = ''toggle''"
    | (b) "type zone = ''momentary''"
    | (c) "type zone \<noteq> ''flip''" "type zone \<noteq> ''toggle''" "type zone \<noteq> ''momentary''"
    by blast
  then show ?thesis
  proof cases
    case a
    show ?thesis unfolding activate_flip[OF nr a] by simp
  next
    case b
    show ?thesis unfolding activate_momentary[OF nr b] by simp
  next
    case c
    then show ?thesis by (simp add: activate_other)
  qed
qed

lemma deactivate_keeps:
  "x (deactivateGravityZone zone p) = x p \<and>
   y (deactivateGravityZone zone p) = y p \<and>
   width (deactivateGravityZone zone p) = width p \<and>
   height (deactivateGravityZone zone p) = height p \<and>
   onGround (deactivateGravityZone zone p) = onGround p \<and>
   vy (deactivateGravityZone zone p) = vy p"
  by (simp add: deactivateGravityZone_def)

lemma player_kept_refl: "player_kept p p"
  by (simp add: player_kept_def)

lemma player_kept_trans: "player_kept p q \<Longrightarrow> player_kept q u \<Longrightarrow> player_kept p u"
  by (simp add: player_kept_def)

lemma player_kept_activate: "player_kept p (snd (activateGravityZone zone p))"
  by (simp add: player_kept_def activate_keeps)

lemma player_kept_deactivate: "player_kept p (deactivateGravityZone zone p)"
  by (simp add: player_kept_def deactivate_keeps)

lemma player_kept_zones: "player_kept p (p\<lparr>currentGravityZone := S\<rparr>)"
  by (simp add: player_kept_def)

lemma player_kept_enterExit: "player_kept p (snd (zoneEnterExit a b zone p))"
  unfolding zoneEnterExit_def Let_def
  by (auto intro: player_kept_trans[OF player_kept_zones player_kept_activate]
        player_kept_trans[OF player_kept_zones player_kept_deactivate]
        player_kept_zones player_kept_refl)

lemma player_kept_contact: "player_kept p (snd (zoneContact a zone p))"
  unfolding zoneContact_def
  by (auto intro: player_kept_activate player_kept_refl)

lemma player_kept_zone1: "player_kept p (snd (checkGravityZone1 deltaTime zone p))"
proof -
  obtain zc pc where e: "zoneEnterExit (checkCollision p zone) (zone_id zone \<in> currentGravityZone p)
                           (tickZoneCooldown deltaTime zone) p = (zc, pc)"
    by (cases "zoneEnterExit (checkCollision p zone) (zone_id zone \<in> currentGravityZone p)
                 (tickZoneCooldown deltaTime zone) p")
  have "player_kept p pc"
    using player_kept_enterExit[of p "checkCollision p zone" "zone_id zone \<in> currentGravityZone p"
        "tickZoneCooldown deltaTime zone"] by (simp add: e)
  then have "player_kept p (snd (zoneContact (checkCollision p zone) zc pc))"
    by (rule player_kept_trans) (rule player_kept_contact)
  then show ?thesis
    by (simp add: checkGravityZone1_def Let_def e)
qed

lemma player_kept_zones_loop: "player_kept p (snd (checkGravityZones deltaTime zones p))"
proof (induction zones arbitrary: p)
  case Nil
  show ?case by (simp add: player_kept_refl)
next
  case (Cons zone zones)
  obtain z1 p1 where a: "checkGravityZone1 deltaTime zone p = (z1, p1)"
    by (cases "checkGravityZone1 deltaTime zone p")
  obtain zs p2 where b: "checkGravityZones deltaTime zones p1 = (zs, p2)"
    by (cases "checkGravityZones deltaTime zones p1")
  have "player_kept p p1" using player_kept_zone1[of p deltaTime zone] by (simp add: a)
  moreover have "player_kept p1 p2" using Cons.IH[of p1] by (simp add: b)
  ultimately have "player_kept p p2" by (rule player_kept_trans)
  then show ?case by (simp add: a b)
qed

lemma tick_flags:
  "oneShot (tickZoneCooldown deltaTime zone) = oneShot zone \<and>
   hasActivated (tickZoneCooldown deltaTime zone) = hasActivated zone"
  by (simp add: tickZoneCooldown_def Let_def)

lemma enterExit_flags:
  "oneShot (fst (zoneEnterExit a b zone p)) = oneShot zone \<and>
   (hasActivated zone \<longrightarrow> hasActivated (fst (zoneEnterExit a b zone p)))"
  by (simp add: zoneEnterExit_def Let_def activate_zone_flags)

lemma contact_flags:
  "oneShot (fst (zoneContact a zone p)) = oneShot zone \<and>
   (hasActivated zone \<longrightarrow> hasActivated (fst (zoneContact a zone p)))"
  by (simp add: zoneContact_def activate_zone_flags)

lemma checkGravityZone1_flags:
  "oneShot (fst (checkGravityZone1 deltaTime zone p)) = oneShot zone \<and>
   (hasActivated zone \<longrightarrow> hasActivated (fst (checkGravityZone1 deltaTime zone p)))"
proof -
  obtain zc pc where e: "zoneEnterExit (checkCollision p zone) (zone_id zone \<in> currentGravityZone p)
                           (tickZoneCooldown deltaTime zone) p = (zc, pc)"
    by (cases "zoneEnterExit (checkCollision p zone) (zone_id zone \<in> currentGravityZone p)
                 (tickZoneCooldown deltaTime zone) p")
  have "oneShot zc = oneShot zone \<and> (hasActivated zone \<longrightarrow> hasActivated zc)"
    using enterExit_flags[of "checkCollision p zone" "zone_id zone \<in> currentGravityZone p"
        "tickZoneCooldown deltaTime zone" p] by (simp add: e tick_flags)
  then show ?thesis
    using contact_flags[of "checkCollision p zone" zc pc]
    by (simp add: checkGravityZone1_def Let_def e)
qed

text \<open>
  C5. A zone with \<open>oneShot\<close> set whose \<open>hasActivated\<close> is already true: a call of
  \<open>activateGravityZone\<close> returns at its first line, so the zone and the player (with all
  their timers) come back exactly as they went in. The per-frame zone code keeps both
  flags, so this holds for every later call until \<open>parseLevel\<close> builds new zone objects.
\<close>

theorem oneShot_activated_zone_is_inert:
  "oneShot zone \<and> hasActivated zone \<longrightarrow>
     activateGravityZone zone p = (zone, p) \<and>
     oneShot (fst (checkGravityZone1 deltaTime zone q)) \<and>
     hasActivated (fst (checkGravityZone1 deltaTime zone q))"
  using checkGravityZone1_flags[of deltaTime zone q]
  by (simp add: activate_refused activation_refused_def)

theorem oneShot_activated_zone_is_inert_witness:
  "oneShot (sample_zone\<lparr>hasActivated := True\<rparr>) \<and>
   hasActivated (sample_zone\<lparr>hasActivated := True\<rparr>) \<and>
   activateGravityZone (sample_zone\<lparr>hasActivated := True\<rparr>) sample_player
     = (sample_zone\<lparr>hasActivated := True\<rparr>, sample_player) \<and>
   oneShot (fst (checkGravityZone1 (1 / 60) (sample_zone\<lparr>hasActivated := True\<rparr>)
                  sample_player)) \<and>
   hasActivated (fst (checkGravityZone1 (1 / 60) (sample_zone\<lparr>hasActivated := True\<rparr>)
                       sample_player))"
  using oneShot_activated_zone_is_inert
          [of "sample_zone\<lparr>hasActivated := True\<rparr>" sample_player "1 / 60" sample_player]
  by (simp add: sample_zone_def)

lemma activate_result:
  "(\<not> activation_refused zone \<longrightarrow>
      gravityScale (snd (activateGravityZone zone p)) =
        (if type zone = ''flip'' \<or> type zone = ''toggle'' then - gravityScale p
         else if type zone = ''momentary'' then - 1 else gravityScale p)) \<and>
   activateGravityZone zone p =
     (if gravityScale (snd (activateGravityZone zone p)) \<noteq> gravityScale p
      then (zone\<lparr>cooldownTimer := Some (if cooldown zone \<noteq> 0 then cooldown zone else 1),
                 hasActivated := True\<rparr>,
            p\<lparr>gravityScale := gravityScale (snd (activateGravityZone zone p)),
               gravityFlipTimer := (if truthy_num (duration zone) then the (duration zone)
                                    else gravityFlipTimer p),
               hasBeenFlipped := True, gravityIndicatorAlpha := 1,
               vy := vy p * 0.5\<rparr>)
      else (zone, p))"
proof (cases "activation_refused zone")
  case True
  then show ?thesis by (simp add: activate_refused)
next
  case nr: False
  consider (a) "type zone = ''flip'' \<or> type zone = ''toggle''"
    | (b) "type zone = ''momentary''"
    | (c) "type zone \<noteq> ''flip''" "type zone \<noteq> ''toggle''" "type zone \<noteq> ''momentary''"
    by blast
  then show ?thesis
  proof cases
    case a
    show ?thesis unfolding activate_flip[OF nr a] using a by auto
  next
    case b
    show ?thesis unfolding activate_momentary[OF nr b] using b by auto
  next
    case c
    then show ?thesis by (simp add: activate_other)
  qed
qed

text \<open>
  C3, as stated, fails for "every gravity zone": a flip zone that is one-shot and has
  already activated (or whose cooldown timer is still above 0) does not invert
  \<open>gravityScale\<close>, because \<open>activateGravityZone\<close> returns before the \<open>switch\<close>.
\<close>

theorem activate_refused_zone_counterexample:
  "type (sample_zone\<lparr>hasActivated := True\<rparr>) = ''flip'' \<and>
   gravityScale (snd (activateGravityZone (sample_zone\<lparr>hasActivated := True\<rparr>) sample_player))
     \<noteq> - gravityScale sample_player"
  by (simp add: activateGravityZone_def sample_zone_def sample_player_def)

text \<open>
  C3, amended. When the call is not refused by the one-shot guard or the cooldown guard,
  \<open>activateGravityZone\<close> inverts \<open>gravityScale\<close> for the types flip and toggle and sets it to
  -1 for momentary (any other type leaves it alone). And for every zone: exactly when
  \<open>gravityScale\<close> changed value in the call, the zone's \<open>cooldownTimer\<close> is set (to the
  configured cooldown, or 1 when that is 0), \<open>hasActivated\<close> becomes true, the player's
  \<open>gravityFlipTimer\<close> is set to the zone's duration when that is a nonzero number, and
  \<open>vy\<close> is halved (with the two display flags set); when it did not change, zone and
  player are returned unchanged.
\<close>

theorem activate_flips_and_effects_iff_changed:
  "(\<not> activation_refused zone \<longrightarrow>
      gravityScale (snd (activateGravityZone zone p)) =
        (if type zone = ''flip'' \<or> type zone = ''toggle'' then - gravityScale p
         else if type zone = ''momentary'' then - 1 else gravityScale p)) \<and>
   activateGravityZone zone p =
     (if gravityScale (snd (activateGravityZone zone p)) \<noteq> gravityScale p
      then (zone\<lparr>cooldownTimer := Some (if cooldown zone \<noteq> 0 then cooldown zone else 1),
                 hasActivated := True\<rparr>,
            p\<lparr>gravityScale := gravityScale (snd (activateGravityZone zone p)),
               gravityFlipTimer := (if truthy_num (duration zone) then the (duration zone)
                                    else gravityFlipTimer p),
               hasBeenFlipped := True, gravityIndicatorAlpha := 1,
               vy := vy p * 0.5\<rparr>)
      else (zone, p))"
  by (rule activate_result)

theorem activate_flips_and_effects_iff_changed_witness:
  "\<not> activation_refused sample_zone \<and>
   activateGravityZone sample_zone (sample_player\<lparr>vy := 300\<rparr>) =
     (sample_zone\<lparr>cooldownTimer := Some 1, hasActivated := True\<rparr>,
      sample_player\<lparr>gravityScale := - 1, hasBeenFlipped := True,
                     gravityIndicatorAlpha := 1, vy := 150\<rparr>)"
proof -
  have nr: "\<not> activation_refused sample_zone"
    by (simp add: activation_refused_def sample_zone_def gt0_def)
  have t: "type sample_zone = ''flip''" "duration sample_zone = None" "cooldown sample_zone = 0"
    by (simp_all add: sample_zone_def)
  have g: "gravityScale (sample_player\<lparr>vy := 300\<rparr>) = 1" "gravityFlipTimer sample_player = 0"
    by (simp_all add: sample_player_def)
  from activate_flips_and_effects_iff_changed[of sample_zone "sample_player\<lparr>vy := 300\<rparr>"] nr
  have a: "gravityScale (snd (activateGravityZone sample_zone (sample_player\<lparr>vy := 300\<rparr>))) = - 1"
    by (simp add: t g)
  from activate_flips_and_effects_iff_changed[of sample_zone "sample_player\<lparr>vy := 300\<rparr>"]
  have "activateGravityZone sample_zone (sample_player\<lparr>vy := 300\<rparr>) =
     (sample_zone\<lparr>cooldownTimer := Some 1, hasActivated := True\<rparr>,
      sample_player\<lparr>gravityScale := - 1, hasBeenFlipped := True,
                     gravityIndicatorAlpha := 1, vy := 150\<rparr>)"
    unfolding a by (simp add: t g truthy_num_def sample_player_def)
  with nr show ?thesis by simp
qed

text \<open>
  C10. A zone configured with \<open>cooldown: 0\<close> keeps that 0 through \<open>parseLevel\<close> (only an
  absent cooldown becomes 0.5), and a successful activation (one that changed
  \<open>gravityScale\<close>) then sets its \<open>cooldownTimer\<close> to 1.0, because \<open>zone.cooldown || 1.0\<close>
  takes 0 as absent; any other number is taken as it is. So among the cooldowns that are
  durations (not negative) exactly the strictly positive ones are honored as given, and
  after the activation the zone refuses the next one.
\<close>

theorem zero_cooldown_becomes_one_second:
  assumes "gravityScale (snd (activateGravityZone zone p)) \<noteq> gravityScale p"
  shows "cooldownTimer (fst (activateGravityZone zone p)) =
           Some (if cooldown zone = 0 then 1.0 else cooldown zone) \<and>
         (0 \<le> cooldown zone \<longrightarrow>
            (cooldownTimer (fst (activateGravityZone zone p)) = Some (cooldown zone)
               \<longleftrightarrow> 0 < cooldown zone) \<and>
            activateGravityZone (fst (activateGravityZone zone p)) q
              = (fst (activateGravityZone zone p), q)) \<and>
         cooldown (makeZone chapterData levelData box index) =
           (case cfg_cooldown (zoneConfigFor chapterData levelData index) of
              None \<Rightarrow> 0.5 | Some c \<Rightarrow> c)"
proof -
  let ?A = "activateGravityZone zone p"
  have A: "?A = (zone\<lparr>cooldownTimer := Some (if cooldown zone \<noteq> 0 then cooldown zone else 1),
                      hasActivated := True\<rparr>,
                 p\<lparr>gravityScale := gravityScale (snd ?A),
                    gravityFlipTimer := (if truthy_num (duration zone) then the (duration zone)
                                         else gravityFlipTimer p),
                    hasBeenFlipped := True, gravityIndicatorAlpha := 1, vy := vy p * 0.5\<rparr>)"
    by (rule trans[OF conjunct2[OF activate_result[of zone p]]
                       if_P[OF assms(1)]])
  have t: "cooldownTimer (fst ?A) = Some (if cooldown zone = 0 then 1 else cooldown zone)"
    by (subst A) simp
  have r: "activateGravityZone (fst ?A) q = (fst ?A, q)" if "0 \<le> cooldown zone"
  proof -
    have "gt0 (cooldownTimer (fst ?A))"
      unfolding t using that by (simp add: gt0_def)
    then show ?thesis
      by (simp add: activate_refused activation_refused_def)
  qed
  have m: "cooldown (makeZone chapterData levelData box index) =
           (case cfg_cooldown (zoneConfigFor chapterData levelData index) of
              None \<Rightarrow> 0.5 | Some c \<Rightarrow> c)"
    by (simp add: makeZone_def Let_def defined_or_def split: option.split)
  from t r m show ?thesis by auto
qed

theorem zero_cooldown_becomes_one_second_witness:
  "gravityScale (snd (activateGravityZone sample_zone sample_player)) \<noteq> gravityScale sample_player \<and>
   0 \<le> cooldown sample_zone \<and> cooldown sample_zone = 0 \<and>
   cooldownTimer (fst (activateGravityZone sample_zone sample_player)) = Some 1 \<and>
   activateGravityZone (fst (activateGravityZone sample_zone sample_player)) sample_player
     = (fst (activateGravityZone sample_zone sample_player), sample_player)"
proof -
  have h1: "gravityScale (snd (activateGravityZone sample_zone sample_player))
              \<noteq> gravityScale sample_player"
    by (simp add: activateGravityZone_def sample_zone_def sample_player_def gt0_def
          truthy_num_def Let_def)
  have h2: "0 \<le> cooldown sample_zone" "cooldown sample_zone = 0"
    by (simp_all add: sample_zone_def)
  from zero_cooldown_becomes_one_second[OF h1, of sample_player] h1 h2 show ?thesis by simp
qed

section \<open>Properties of the collision resolution\<close>

lemma resolveHorizontal1_still: "vx p = 0 \<Longrightarrow> resolveHorizontal1 platform p = p"
  by (simp add: resolveHorizontal1_def)

lemma resolveVertical1_still: "vy p = 0 \<Longrightarrow> resolveVertical1 platform p = p"
  by (simp add: resolveVertical1_def)

lemma resolveHorizontal_still: "vx p = 0 \<Longrightarrow> resolveHorizontal solids p = p"
  unfolding resolveHorizontal_def
  by (induction solids) (simp_all add: resolveHorizontal1_still)

lemma resolveVertical_still: "vy p = 0 \<Longrightarrow> resolveVertical solids p = p"
  unfolding resolveVertical_def
  by (induction solids) (simp_all add: resolveVertical1_still)

text \<open>
  C9. The resolution loops move the player only in a branch guarded by \<open>vx > 0\<close>,
  \<open>vx < 0\<close>, \<open>vy > 0\<close> or \<open>vy < 0\<close>. With \<open>vx = 0\<close> the horizontal loop returns the player
  unchanged, and with \<open>vy = 0\<close> the vertical loop returns it unchanged (\<open>y\<close>, \<open>vy\<close> and
  \<open>onGround\<close> included), whatever it overlaps; the same loop runs over \<open>platforms\<close> and
  over \<open>invisiblePlatforms\<close>. (The assignment \<open>onGround = false\<close> that precedes the
  vertical loops is part of the movement, \<open>moveVertical\<close>, not of the resolution.)
\<close>

theorem zero_velocity_is_never_displaced:
  "(vx p = 0 \<longrightarrow> resolveHorizontal solids p = p) \<and>
   (vy p = 0 \<longrightarrow> resolveVertical solids p = p)"
  by (simp add: resolveHorizontal_still resolveVertical_still)

theorem zero_velocity_is_never_displaced_witness:
  "vx sample_player = 0 \<and> vy sample_player = 0 \<and>
   checkCollision sample_player sample_platform \<and>
   resolveHorizontal [sample_platform, sample_platform] sample_player = sample_player \<and>
   resolveVertical [sample_platform, sample_platform] sample_player = sample_player"
proof -
  have v: "vx sample_player = 0" "vy sample_player = 0"
    by (simp_all add: sample_player_def)
  have c: "checkCollision sample_player sample_platform"
    by (simp add: checkCollision_def sample_player_def sample_platform_def)
  from zero_velocity_is_never_displaced[of sample_player "[sample_platform, sample_platform]"] v c
  show ?thesis by simp
qed

section \<open>Properties of the spikes\<close>

lemma check_cases:
  "checkSpikeTrigger1 p s =
     (if \<not> triggered s \<and> \<not> moved s \<and> straddlesTriggerLine p s \<and> withinTriggerWindow p s
      then s\<lparr>triggered := True, moving := True, moveTimer := 0\<rparr> else s)"
  by (simp add: checkSpikeTrigger1_def straddlesTriggerLine_def withinTriggerWindow_def Let_def)

lemma check_triggered_id: "triggered s \<Longrightarrow> checkSpikeTrigger1 p s = s"
  by (simp add: check_cases)

lemma update_keeps_triggered: "triggered (updateMovingSpike dt s) = triggered s"
  by (simp add: updateMovingSpike_def Let_def)

lemma frame_keeps_triggered: "triggered s \<Longrightarrow> triggered (spikeFrame f s)"
  by (simp add: spikeFrame_def update_keeps_triggered check_triggered_id)

lemma triggerCount_triggered: "triggered s \<Longrightarrow> triggerCount fs s = 0"
  by (induction fs arbitrary: s) (simp_all add: frame_keeps_triggered)

lemma triggerCount_le1: "triggerCount fs s \<le> 1"
proof (induction fs arbitrary: s)
  case Nil
  show ?case by simp
next
  case (Cons f fs)
  show ?case
  proof (cases "\<not> triggered s \<and> triggered (checkSpikeTrigger1 (fst f) s)")
    case True
    then have "triggered (spikeFrame f s)"
      by (simp add: spikeFrame_def update_keeps_triggered)
    then show ?thesis using True by (simp add: triggerCount_triggered)
  next
    case False
    then show ?thesis using Cons.IH[of "spikeFrame f s"] by auto
  qed
qed

lemma update_moving:
  "moving s \<Longrightarrow>
   updateMovingSpike dt s =
     (if 1 \<le> fl (moveTimer s + fl (dt * 5))
      then s\<lparr>moveTimer := 1, moving := False, moved := True, x := spikeX s 1\<rparr>
      else s\<lparr>moveTimer := fl (moveTimer s + fl (dt * 5)),
             x := spikeX s (fl (moveTimer s + fl (dt * 5)))\<rparr>)"
  by (simp add: updateMovingSpike_def spikeX_def Let_def)

lemma update_not_moving: "\<not> moving s \<Longrightarrow> updateMovingSpike dt s = s"
  by (simp add: updateMovingSpike_def)

lemma settled_frame: "spike_settled s \<Longrightarrow> spikeFrame f s = s"
  by (simp add: spike_settled_def spikeFrame_def check_cases update_not_moving)

lemma settled_frames: "spike_settled s \<Longrightarrow> spikeFrames fs s = s"
  unfolding spikeFrames_def
  by (induction fs) (simp_all add: settled_frame)

lemma spikeFrames_Cons: "spikeFrames (f # fs) s = spikeFrames fs (spikeFrame f s)"
  by (simp add: spikeFrames_def)

lemma moving_frame:
  "triggered s \<Longrightarrow> moving s \<Longrightarrow>
   spikeFrame f s =
     (if 1 \<le> fl (moveTimer s + fl (snd f * 5))
      then s\<lparr>moveTimer := 1, moving := False, moved := True, x := spikeX s 1\<rparr>
      else s\<lparr>moveTimer := fl (moveTimer s + fl (snd f * 5)),
             x := spikeX s (fl (moveTimer s + fl (snd f * 5)))\<rparr>)"
  by (simp add: spikeFrame_def check_triggered_id update_moving)

lemma spikeX_cong:
  "originalX u = originalX s \<Longrightarrow> moveDistance u = moveDistance s \<Longrightarrow> spikeX u t = spikeX s t"
  by (simp add: spikeX_def)

lemma moving_frames:
  assumes "triggered s" "moving s" "fs \<noteq> []"
  shows "spikeFrames fs s =
     (if 1 \<le> moveProgress (moveTimer s) (map snd fs)
      then s\<lparr>moveTimer := 1, moving := False, moved := True, x := spikeX s 1\<rparr>
      else s\<lparr>moveTimer := moveProgress (moveTimer s) (map snd fs),
             x := spikeX s (moveProgress (moveTimer s) (map snd fs))\<rparr>)"
  using assms
proof (induction fs arbitrary: s)
  case Nil
  then show ?case by simp
next
  case (Cons f fs)
  let ?t = "fl (moveTimer s + fl (snd f * 5))"
  show ?case
  proof (cases "1 \<le> ?t")
    case True
    let ?u = "s\<lparr>moveTimer := 1, moving := False, moved := True, x := spikeX s 1\<rparr>"
    have "spikeFrame f s = ?u" using True Cons.prems by (simp add: moving_frame)
    moreover have "spike_settled ?u" by (simp add: spike_settled_def)
    ultimately have "spikeFrames (f # fs) s = ?u"
      by (simp add: spikeFrames_Cons settled_frames)
    then show ?thesis using True by simp
  next
    case False
    let ?u = "s\<lparr>moveTimer := ?t, x := spikeX s ?t\<rparr>"
    have u: "spikeFrame f s = ?u" using False Cons.prems by (simp add: moving_frame)
    show ?thesis
    proof (cases "fs = []")
      case True
      then show ?thesis using u False by (simp add: spikeFrames_def)
    next
      case ne: False
      have x: "spikeX ?u t = spikeX s t" for t
        by (rule spikeX_cong) simp_all
      have "spikeFrames fs ?u =
        (if 1 \<le> moveProgress (moveTimer ?u) (map snd fs)
         then ?u\<lparr>moveTimer := 1, moving := False, moved := True, x := spikeX ?u 1\<rparr>
         else ?u\<lparr>moveTimer := moveProgress (moveTimer ?u) (map snd fs),
                  x := spikeX ?u (moveProgress (moveTimer ?u) (map snd fs))\<rparr>)"
        by (rule Cons.IH) (use Cons.prems ne in simp_all)
      then show ?thesis
        using False by (simp add: spikeFrames_Cons u x)
    qed
  qed
qed

lemma frame_keeps_consistent:
  "\<not> (moved s \<and> moving s) \<Longrightarrow> \<not> (moved (spikeFrame f s) \<and> moving (spikeFrame f s))"
  by (auto simp: spikeFrame_def check_cases updateMovingSpike_def Let_def)

lemma frames_keep_consistent:
  "\<not> (moved s \<and> moving s) \<Longrightarrow> \<not> (moved (spikeFrames fs s) \<and> moving (spikeFrames fs s))"
proof (induction fs arbitrary: s)
  case Nil
  then show ?case by (simp add: spikeFrames_def)
next
  case (Cons f fs)
  from Cons.IH[OF frame_keeps_consistent[OF Cons.prems, of f]]
  show ?case by (simp add: spikeFrames_Cons)
qed

lemma spikeFrames_append: "spikeFrames (hs @ gs) s = spikeFrames gs (spikeFrames hs s)"
  by (simp add: spikeFrames_def)

lemma moved_is_final:
  assumes "\<not> (moved s \<and> moving s)" "moved (spikeFrames hs s)"
  shows "spikeFrames (hs @ gs) s = spikeFrames hs s"
proof -
  have "spike_settled (spikeFrames hs s)"
    using frames_keep_consistent[OF assms(1), of hs] assms(2) by (simp add: spike_settled_def)
  then show ?thesis by (simp add: spikeFrames_append settled_frames)
qed

lemma trigger_then_move:
  assumes "\<not> triggered s" "\<not> moved s"
    and "straddlesTriggerLine (fst f0) s" "withinTriggerWindow (fst f0) s"
  shows "spikeFrames (f0 # fs) s =
     (if 1 \<le> moveProgress 0 (map snd (f0 # fs))
      then s\<lparr>triggered := True, moveTimer := 1, moving := False, moved := True,
             x := spikeX s 1\<rparr>
      else s\<lparr>triggered := True, moving := True,
             moveTimer := moveProgress 0 (map snd (f0 # fs)),
             x := spikeX s (moveProgress 0 (map snd (f0 # fs)))\<rparr>)"
proof -
  let ?t = "s\<lparr>triggered := True, moving := True, moveTimer := 0\<rparr>"
  have c: "checkSpikeTrigger1 (fst f0) s = ?t" using assms by (simp add: check_cases)
  have x: "spikeX ?t t = spikeX s t" for t
    by (rule spikeX_cong) simp_all
  have "spikeFrame f0 s = spikeFrame f0 ?t"
    by (simp add: spikeFrame_def c check_triggered_id)
  then have "spikeFrames (f0 # fs) s = spikeFrames (f0 # fs) ?t"
    by (simp add: spikeFrames_Cons)
  also have "\<dots> =
     (if 1 \<le> moveProgress (moveTimer ?t) (map snd (f0 # fs))
      then ?t\<lparr>moveTimer := 1, moving := False, moved := True, x := spikeX ?t 1\<rparr>
      else ?t\<lparr>moveTimer := moveProgress (moveTimer ?t) (map snd (f0 # fs)),
              x := spikeX ?t (moveProgress (moveTimer ?t) (map snd (f0 # fs)))\<rparr>)"
    by (rule moving_frames) simp_all
  finally show ?thesis by (simp add: x)
qed

lemma spikeX_integers:
  assumes "originalX s = of_int a" "moveDistance s = of_int b" "\<bar>a\<bar> < 2 ^ 52" "\<bar>b\<bar> < 2 ^ 52"
  shows "spikeX s 1 = originalX s + moveDistance s"
proof -
  have ab: "\<bar>a + b\<bar> < 2 ^ 53" "\<bar>a\<bar> < 2 ^ 53" "\<bar>b\<bar> < 2 ^ 53"
    using assms(3,4) by simp_all
  have t: "fl (originalX s + moveDistance s) = of_int (a + b)"
    using fl_of_int[OF ab(1)] by (simp add: assms(1,2))
  have d: "fl (of_int (a + b) - originalX s) = of_int b"
    using fl_of_int[OF ab(3)] by (simp add: assms(1))
  have m: "fl (of_int b * 1) = of_int b"
    using fl_of_int[OF ab(3)] by simp
  have "spikeX s 1 = fl (originalX s + of_int b)"
    by (simp only: spikeX_def t d m)
  also have "\<dots> = of_int (a + b)"
    using fl_of_int[OF ab(1)] by (simp add: assms(1))
  finally show ?thesis by (simp add: assms(1,2))
qed

lemma spikeX_interpolates:
  assumes "originalX s = of_int a" "moveDistance s = of_int b" "\<bar>a\<bar> < 2 ^ 52" "\<bar>b\<bar> < 2 ^ 52"
    and "0 \<le> t" "t \<le> 1"
  shows "\<bar>spikeX s t - (originalX s + moveDistance s * t)\<bar>
           \<le> (\<bar>originalX s\<bar> + \<bar>moveDistance s\<bar> + 1) / 2 ^ 52"
  using interpolation_error[OF assms(3-6)]
  by (simp only: spikeX_def assms(1,2))

lemma die_spikes: "spikes (die g) = spikes g"
  by (simp add: die_def)

lemma completeLevel_spikes: "spikes (completeLevel g) = spikes g"
  by (simp add: completeLevel_def markLevelComplete_def Let_def)

lemma foldl_die_spikes:
  "spikes (foldl (\<lambda>h spike. if checkCollision (player h) spike then die h else h) g ss) = spikes g"
  by (induction ss arbitrary: g) (simp_all add: die_spikes)

lemma stepPlayer_levelTime: "stepPlayer dt (g\<lparr>levelTime := t\<rparr>) = stepPlayer dt g"
  by (simp add: stepPlayer_def)

lemma resetPlayer_spikes: "spikes (resetPlayer g) = map resetSpike (spikes g)"
  by (simp add: resetPlayer_def Let_def)

lemma updatePlaying_spikes:
  "spikes (updatePlaying dt g) = map (spikeFrame (stepPlayer dt g, dt)) (spikes g)"
proof -
  let ?g1 = "if \<not> isDead g then g\<lparr>levelTime := levelTime g + dt\<rparr> else g"
  have p: "stepPlayer dt ?g1 = stepPlayer dt g" by (simp add: stepPlayer_levelTime)
  have s1: "spikes ?g1 = spikes g" by simp
  obtain zs pz where z: "(if ENABLE_GRAVITY_ZONES
                          then checkGravityZones dt (gravityZones ?g1) (stepPlayer dt g)
                          else (gravityZones ?g1, stepPlayer dt g)) = (zs, pz)"
    by (cases "(if ENABLE_GRAVITY_ZONES
                          then checkGravityZones dt (gravityZones ?g1) (stepPlayer dt g)
                          else (gravityZones ?g1, stepPlayer dt g))")
  show ?thesis
    unfolding updatePlaying_def Let_def p z prod.case
    by (simp add: die_spikes completeLevel_spikes foldl_die_spikes checkSpikeTriggers_def
          updateMovingSpikes_def spikeFrame_def split: option.split)
qed

lemma update_spikes_cases:
  assumes "update dt g = Inr g'"
  shows "if loadsNextLevel dt g
         then loadLevelFromChapter (currentChapter g) (currentLevelInChapter g + 1)
                (g\<lparr>levelCompleteTimer := levelCompleteTimer g - dt\<rparr>) = Inr g'
         else spikes g' =
                (if playsFrame g then map (spikeFrame (stepPlayer dt g, dt)) (spikes g)
                 else if respawns dt g then map resetSpike (spikes g)
                 else spikes g)"
  using assms
  by (cases "transitionState g")
     (auto simp: update_def Let_def updatePlaying_spikes resetPlayer_spikes
        loadsNextLevel_def playsFrame_def respawns_def
      split: if_splits option.splits)

text \<open>
  C1, as stated, fails: the trigger test is not an edge crossing between two frames. With
  the player standing still across the trigger line, first above the trigger window (no
  trigger) and one frame later inside it, the spike triggers although no edge of the
  player crossed the line in that frame.
\<close>

theorem spike_trigger_counterexample:
  "checkSpikeTrigger1 frame_above sample_spike = sample_spike \<and>
   \<not> triggered sample_spike \<and>
   triggered (checkSpikeTrigger1 frame_inside sample_spike) \<and>
   x frame_inside = x frame_above \<and>
   \<not> edgeCrossedThisFrame frame_above frame_inside sample_spike"
  by (simp add: checkSpikeTrigger1_def frame_above_def frame_inside_def sample_spike_def
        sample_player_def edgeCrossedThisFrame_def)

text \<open>
  C1, amended. In every frame of the playing state a spike becomes triggered exactly when
  it is not already triggered or moved, the player's box in this frame lies across the
  trigger line (left edge before \<open>triggerX\<close>, right edge at or past it: a test on the
  current position only), and the player's vertical span meets
  \<open>[triggerY, triggerY + triggerHeight]\<close>; otherwise \<open>checkSpikeTriggers\<close> leaves the spike
  as it is, so being on the line outside the window never triggers it. Over any run of
  frames without a respawn the spike triggers at most once. In a frame of the playing
  state the test is made for every spike, with the player as the physics step left it.
\<close>

theorem spike_trigger:
  "((\<not> triggered s \<and> triggered (checkSpikeTrigger1 p s)) \<longleftrightarrow>
      (\<not> triggered s \<and> \<not> moved s \<and> straddlesTriggerLine p s \<and> withinTriggerWindow p s)) \<and>
   checkSpikeTrigger1 p s =
     (if \<not> triggered s \<and> \<not> moved s \<and> straddlesTriggerLine p s \<and> withinTriggerWindow p s
      then s\<lparr>triggered := True, moving := True, moveTimer := 0\<rparr> else s) \<and>
   triggerCount fs s \<le> 1 \<and>
   map triggered (spikes (updatePlaying dt g))
     = map (\<lambda>u. triggered (checkSpikeTrigger1 (stepPlayer dt g) u)) (spikes g)"
proof -
  have "map triggered (spikes (updatePlaying dt g))
     = map (\<lambda>u. triggered (checkSpikeTrigger1 (stepPlayer dt g) u)) (spikes g)"
    by (simp add: updatePlaying_spikes spikeFrame_def update_keeps_triggered)
  then show ?thesis
    using triggerCount_le1[of fs s] by (auto simp: check_cases)
qed

theorem spike_trigger_witness:
  "\<not> triggered sample_spike \<and> triggered (checkSpikeTrigger1 frame_inside sample_spike) \<and>
   straddlesTriggerLine frame_inside sample_spike \<and> withinTriggerWindow frame_inside sample_spike \<and>
   triggerCount [(frame_above, 1 / 60), (frame_inside, 1 / 60), (frame_above, 1 / 60),
                 (frame_inside, 1 / 60)] sample_spike \<le> 1"
proof -
  have a: "\<not> triggered sample_spike" "\<not> moved sample_spike"
    by (simp_all add: sample_spike_def)
  have b: "straddlesTriggerLine frame_inside sample_spike"
    by (simp add: straddlesTriggerLine_def frame_inside_def sample_spike_def sample_player_def)
  have c: "withinTriggerWindow frame_inside sample_spike"
    by (simp add: withinTriggerWindow_def frame_inside_def sample_spike_def sample_player_def)
  from spike_trigger[of sample_spike frame_inside
      "[(frame_above, 1 / 60), (frame_inside, 1 / 60), (frame_above, 1 / 60), (frame_inside, 1 / 60)]"]
    a b c
  show ?thesis by simp
qed

text \<open>
  C2, as stated, fails at its threshold: the move does not end when the accumulated
  \<open>deltaTime\<close> reaches 0.2 s. The timer is a double, and each frame adds the rounded
  \<open>deltaTime * 5\<close> to it with a rounded sum. Over ten frames of \<open>deltaTime = 0.02\<close>, the
  first of which triggers the sample spike, the frame times add up to at least 0.2 s,
  and the timer stands at \<open>1 - 2 ^ - 53\<close> (printed 0.9999999999999999): the spike is still
  moving and not moved.
\<close>

theorem spike_still_moving_after_a_fifth_of_a_second_counterexample:
  "map snd ten_frames = replicate 10 (fl (2 / 100)) \<and>
   fl (2 / 100) = 5764607523034235 / 2 ^ 58 \<and>
   1 / 5 \<le> sum_list (map snd ten_frames) \<and>
   triggered (spikeFrames ten_frames sample_spike) \<and>
   moving (spikeFrames ten_frames sample_spike) \<and>
   \<not> moved (spikeFrames ten_frames sample_spike) \<and>
   moveTimer (spikeFrames ten_frames sample_spike) = 1 - 1 / 2 ^ 53"
proof -
  let ?d = "5764607523034235 / 288230376151711744 :: real"
  have d: "fl (2 / 100) = ?d" by (rule fl_two_hundredths)
  have t: "ten_frames = (frame_inside, ?d) # replicate 9 (frame_above, ?d)"
    by (simp only: ten_frames_def d)
  have m: "map snd ten_frames = replicate 10 ?d"
    unfolding t by (simp add: numeral_eq_Suc)
  have p: "moveProgress 0 (map snd ((frame_inside, ?d) # replicate 9 (frame_above, ?d)))
           = 9007199254740991 / 9007199254740992"
    using moveProgress_ten m unfolding t by (simp only:)
  have h2: "\<not> triggered sample_spike" "\<not> moved sample_spike"
    by (simp_all add: sample_spike_def)
  have h3: "straddlesTriggerLine (fst (frame_inside, ?d)) sample_spike"
    by (simp add: straddlesTriggerLine_def frame_inside_def sample_spike_def sample_player_def)
  have h4: "withinTriggerWindow (fst (frame_inside, ?d)) sample_spike"
    by (simp add: withinTriggerWindow_def frame_inside_def sample_spike_def sample_player_def)
  have r: "spikeFrames ten_frames sample_spike =
           sample_spike\<lparr>triggered := True, moving := True,
                          moveTimer := 9007199254740991 / 9007199254740992,
                          x := spikeX sample_spike (9007199254740991 / 9007199254740992)\<rparr>"
    unfolding t trigger_then_move[OF h2 h3 h4] p by simp
  have l: "map snd ten_frames = replicate 10 (fl (2 / 100))"
    by (simp add: ten_frames_def numeral_eq_Suc)
  have s: "(1::real) / 5 \<le> sum_list (map snd ten_frames)"
    unfolding m by (simp add: numeral_eq_Suc)
  have q: "\<not> moved sample_spike" by (simp add: sample_spike_def)
  show ?thesis
    using l s d by (simp add: r q)
qed

text \<open>
  C2, amended. A spike that is not yet triggered and is triggered in the frame \<open>f0\<close>
  moves for the frames that follow (\<open>f0\<close> included): its \<open>moveTimer\<close> is the rounded sum
  \<open>moveProgress\<close> of the rounded \<open>deltaTime * 5\<close> of these frames and its \<open>x\<close> is the
  interpolation \<open>spikeX\<close> at that timer, until the first frame in which the timer reaches
  1; from then on \<open>moveTimer = 1\<close>, \<open>moving = false\<close>, \<open>moved = true\<close> and \<open>x\<close> is the
  interpolation at 1. With frame times that are not negative the timer is
  \<open>5 * accumulated deltaTime\<close> up to \<open>n * 2 ^ - 50\<close> over \<open>n\<close> frames, and the move ends
  no earlier than at \<open>0.2 * (1 - n * 2 ^ - 50)\<close> seconds of accumulated time. For
  whole-numbered \<open>originalX\<close> and \<open>moveDistance\<close> (below \<open>2 ^ 52\<close>) the end position is
  exactly \<open>originalX + moveDistance\<close> and the position at a timer \<open>t\<close> is
  \<open>originalX + moveDistance * t\<close> up to \<open>(|originalX| + |moveDistance| + 1) * 2 ^ - 52\<close>.
  Once \<open>moved\<close> holds, no further frame changes the spike. \<open>resetPlayer\<close> restores
  \<open>x = originalX\<close> and clears the three flags and the timer of every spike. The playing
  branch of \<open>update\<close> runs the trigger test and the move on every spike; and a frame of
  \<open>update\<close> that returns loads the next level at the end of the level-complete timer,
  and otherwise runs that playing branch on the spikes when it plays, resets them when
  it respawns the player, and leaves them alone in every other case.
\<close>

theorem spike_moves_by_the_rounded_timer_then_freezes:
  assumes "\<not> triggered s" "\<not> moved s"
    and "straddlesTriggerLine (fst f0) s" "withinTriggerWindow (fst f0) s"
  shows "spikeFrames (f0 # fs) s =
           (if 1 \<le> moveProgress 0 (map snd (f0 # fs))
            then s\<lparr>triggered := True, moveTimer := 1, moving := False, moved := True,
                   x := spikeX s 1\<rparr>
            else s\<lparr>triggered := True, moving := True,
                   moveTimer := moveProgress 0 (map snd (f0 # fs)),
                   x := spikeX s (moveProgress 0 (map snd (f0 # fs)))\<rparr>) \<and>
         ((\<forall>f \<in> set (f0 # fs). 0 \<le> snd f) \<longrightarrow>
            (moveProgress 0 (map snd (f0 # fs)) < 1 \<longrightarrow>
               \<bar>moveProgress 0 (map snd (f0 # fs)) - 5 * sum_list (map snd (f0 # fs))\<bar>
                 \<le> real (length (f0 # fs)) / 2 ^ 50) \<and>
            (1 \<le> moveProgress 0 (map snd (f0 # fs)) \<longrightarrow>
               1 - real (length (f0 # fs)) / 2 ^ 50 \<le> 5 * sum_list (map snd (f0 # fs)))) \<and>
         (originalX s = of_int a \<and> moveDistance s = of_int b \<and> \<bar>a\<bar> < 2 ^ 52 \<and> \<bar>b\<bar> < 2 ^ 52 \<longrightarrow>
            spikeX s 1 = originalX s + moveDistance s \<and>
            (0 \<le> t \<and> t \<le> 1 \<longrightarrow>
               \<bar>spikeX s t - (originalX s + moveDistance s * t)\<bar>
                 \<le> (\<bar>originalX s\<bar> + \<bar>moveDistance s\<bar> + 1) / 2 ^ 52)) \<and>
         (moved (spikeFrames hs s) \<longrightarrow> spikeFrames (hs @ gs) s = spikeFrames hs s) \<and>
         resetSpike u = u\<lparr>x := originalX u, triggered := False, moved := False,
                           moving := False, moveTimer := 0\<rparr> \<and>
         spikes (resetPlayer h) = map resetSpike (spikes h) \<and>
         spikes (updatePlaying dt g) = map (spikeFrame (stepPlayer dt g, dt)) (spikes g) \<and>
         (update dt g = Inr g' \<longrightarrow>
            (if loadsNextLevel dt g
             then loadLevelFromChapter (currentChapter g) (currentLevelInChapter g + 1)
                    (g\<lparr>levelCompleteTimer := levelCompleteTimer g - dt\<rparr>) = Inr g'
             else spikes g' =
                    (if playsFrame g then map (spikeFrame (stepPlayer dt g, dt)) (spikes g)
                     else if respawns dt g then map resetSpike (spikes g)
                     else spikes g)))"
proof -
  let ?ds = "map snd (f0 # fs)"
  have c: "\<not> (moved s \<and> moving s)" using assms(2) by simp
  have 1: "spikeFrames (f0 # fs) s =
           (if 1 \<le> moveProgress 0 ?ds
            then s\<lparr>triggered := True, moveTimer := 1, moving := False, moved := True,
                   x := spikeX s 1\<rparr>
            else s\<lparr>triggered := True, moving := True, moveTimer := moveProgress 0 ?ds,
                   x := spikeX s (moveProgress 0 ?ds)\<rparr>)"
    by (rule trigger_then_move[OF assms])
  have 2: "(moveProgress 0 ?ds < 1 \<longrightarrow>
               \<bar>moveProgress 0 ?ds - 5 * sum_list ?ds\<bar> \<le> real (length (f0 # fs)) / 2 ^ 50) \<and>
           (1 \<le> moveProgress 0 ?ds \<longrightarrow>
               1 - real (length (f0 # fs)) / 2 ^ 50 \<le> 5 * sum_list ?ds)"
    if "\<forall>f \<in> set (f0 # fs). 0 \<le> snd f"
  proof -
    have "\<forall>d \<in> set ?ds. 0 \<le> d" using that by auto
    from moveProgress_bounds[OF this, of 0] show ?thesis by simp
  qed
  have 3: "spikeX s 1 = originalX s + moveDistance s \<and>
           (0 \<le> t \<and> t \<le> 1 \<longrightarrow>
               \<bar>spikeX s t - (originalX s + moveDistance s * t)\<bar>
                 \<le> (\<bar>originalX s\<bar> + \<bar>moveDistance s\<bar> + 1) / 2 ^ 52)"
    if "originalX s = of_int a \<and> moveDistance s = of_int b \<and> \<bar>a\<bar> < 2 ^ 52 \<and> \<bar>b\<bar> < 2 ^ 52"
    using spikeX_integers[of s a b] spikeX_interpolates[of s a b t] that by blast
  have 4: "moved (spikeFrames hs s) \<longrightarrow> spikeFrames (hs @ gs) s = spikeFrames hs s"
    using moved_is_final[OF c, of hs gs] by blast
  have 5: "resetSpike u = u\<lparr>x := originalX u, triggered := False, moved := False,
                             moving := False, moveTimer := 0\<rparr>"
    by (simp add: resetSpike_def)
  note 6 = resetPlayer_spikes[of h] and 7 = updatePlaying_spikes[of dt g]
  have 8: "update dt g = Inr g' \<longrightarrow>
            (if loadsNextLevel dt g
             then loadLevelFromChapter (currentChapter g) (currentLevelInChapter g + 1)
                    (g\<lparr>levelCompleteTimer := levelCompleteTimer g - dt\<rparr>) = Inr g'
             else spikes g' =
                    (if playsFrame g then map (spikeFrame (stepPlayer dt g, dt)) (spikes g)
                     else if respawns dt g then map resetSpike (spikes g)
                     else spikes g))"
    using update_spikes_cases[of dt g g'] by blast
  from 2 3 have 23: "((\<forall>f \<in> set (f0 # fs). 0 \<le> snd f) \<longrightarrow>
            (moveProgress 0 ?ds < 1 \<longrightarrow>
               \<bar>moveProgress 0 ?ds - 5 * sum_list ?ds\<bar> \<le> real (length (f0 # fs)) / 2 ^ 50) \<and>
            (1 \<le> moveProgress 0 ?ds \<longrightarrow>
               1 - real (length (f0 # fs)) / 2 ^ 50 \<le> 5 * sum_list ?ds))"
    "(originalX s = of_int a \<and> moveDistance s = of_int b \<and> \<bar>a\<bar> < 2 ^ 52 \<and> \<bar>b\<bar> < 2 ^ 52 \<longrightarrow>
            spikeX s 1 = originalX s + moveDistance s \<and>
            (0 \<le> t \<and> t \<le> 1 \<longrightarrow>
               \<bar>spikeX s t - (originalX s + moveDistance s * t)\<bar>
                 \<le> (\<bar>originalX s\<bar> + \<bar>moveDistance s\<bar> + 1) / 2 ^ 52))"
    by blast+
  show ?thesis
    by (intro conjI) (rule 1 23 4 5 6 7 8)+
qed

theorem spike_moves_by_the_rounded_timer_then_freezes_witness:
  "spikeFrames [(frame_inside, 1 / 16), (frame_above, 1 / 16), (frame_above, 1 / 16)] sample_spike
     = sample_spike\<lparr>triggered := True, moving := True, moveTimer := 15 / 16, x := 585 / 2\<rparr> \<and>
   spikeFrames [(frame_inside, 1 / 16), (frame_above, 1 / 16), (frame_above, 1 / 16),
                (frame_above, 1 / 16)] sample_spike
     = sample_spike\<lparr>triggered := True, moveTimer := 1, moving := False, moved := True,
                     x := 300\<rparr> \<and>
   spikeFrames ([(frame_inside, 1 / 16), (frame_above, 1 / 16), (frame_above, 1 / 16),
                 (frame_above, 1 / 16)] @ [(frame_inside, 1 / 60)]) sample_spike
     = spikeFrames [(frame_inside, 1 / 16), (frame_above, 1 / 16), (frame_above, 1 / 16),
                    (frame_above, 1 / 16)] sample_spike \<and>
   \<bar>moveProgress 0 [1 / 16, 1 / 16, 1 / 16] - 5 * (3 / 16)\<bar> \<le> 3 / 2 ^ 50 \<and>
   spikes (resetPlayer (sample_game\<lparr>isDead := True, spikes := [sample_spike\<lparr>moved := True\<rparr>]\<rparr>))
     = [sample_spike] \<and>
   update (1 / 4) (sample_game\<lparr>isDead := True, spikes := [sample_spike\<lparr>moved := True\<rparr>]\<rparr>)
     = Inr (resetPlayer (sample_game\<lparr>isDead := True, spikes := [sample_spike\<lparr>moved := True\<rparr>],
                                     deathFlashTimer := - (1 / 4)\<rparr>)) \<and>
   update (1 / 16) (sample_game\<lparr>spikes := [sample_spike]\<rparr>)
     = Inr (updatePlaying (1 / 16) (sample_game\<lparr>spikes := [sample_spike]\<rparr>)) \<and>
   spikes (updatePlaying (1 / 16) (sample_game\<lparr>spikes := [sample_spike]\<rparr>))
     = [spikeFrame (stepPlayer (1 / 16) (sample_game\<lparr>spikes := [sample_spike]\<rparr>), 1 / 16)
          sample_spike]"
proof -
  let ?fi = "(frame_inside, 1 / 16 :: real)"
  let ?fa = "(frame_above, 1 / 16 :: real)"
  let ?g = "sample_game\<lparr>isDead := True, spikes := [sample_spike\<lparr>moved := True\<rparr>]\<rparr>"
  let ?g' = "resetPlayer (sample_game\<lparr>isDead := True, spikes := [sample_spike\<lparr>moved := True\<rparr>],
                                       deathFlashTimer := - (1 / 4)\<rparr>)"
  let ?p = "sample_game\<lparr>spikes := [sample_spike]\<rparr>"
  have h2: "\<not> triggered sample_spike" "\<not> moved sample_spike"
    by (simp_all add: sample_spike_def)
  have h3: "straddlesTriggerLine (fst ?fi) sample_spike"
    by (simp add: straddlesTriggerLine_def frame_inside_def sample_spike_def sample_player_def)
  have h4: "withinTriggerWindow (fst ?fi) sample_spike"
    by (simp add: withinTriggerWindow_def frame_inside_def sample_spike_def sample_player_def)
  have o: "originalX sample_spike = of_int 180" "moveDistance sample_spike = of_int 120"
          "originalX sample_spike = 180" "moveDistance sample_spike = 120"
    by (simp_all add: sample_spike_def)
  have f: "fl (5 / 16) = 5 / 16" "fl (5 / 8) = 5 / 8" "fl (15 / 16) = 15 / 16"
          "fl (5 / 4) = 5 / 4"
    by (simp_all add: fl_eval)
  have m3: "moveProgress 0 (map snd [?fi, ?fa, ?fa]) = 15 / 16"
    by (simp add: f)
  have m4: "moveProgress 0 (map snd [?fi, ?fa, ?fa, ?fa]) = 1"
    by (simp add: f)
  have x3: "spikeX sample_spike (15 / 16) = 585 / 2"
    by (simp add: spikeX_def o fl_eval)
  have u: "update (1 / 4) ?g = Inr ?g'"
    by (simp add: update_def sample_game_def Let_def)
  have v: "update (1 / 16) ?p = Inr (updatePlaying (1 / 16) ?p)"
    by (simp add: update_def sample_game_def Let_def)
  have pf: "playsFrame ?p" "\<not> loadsNextLevel (1 / 16) ?p"
    by (simp_all add: playsFrame_def loadsNextLevel_def sample_game_def)
  note t3 = spike_moves_by_the_rounded_timer_then_freezes
             [OF h2 h3 h4, of "[?fa, ?fa]" 180 120 "15 / 16" "[?fi, ?fa, ?fa]" "[?fa]"
                "sample_spike\<lparr>moved := True\<rparr>" ?g "1 / 16" ?p "updatePlaying (1 / 16) ?p"]
  note t4 = spike_moves_by_the_rounded_timer_then_freezes
             [OF h2 h3 h4, of "[?fa, ?fa, ?fa]" 180 120 1 "[?fi, ?fa, ?fa, ?fa]" "[(frame_inside, 1 / 60)]"
                "sample_spike\<lparr>moved := True\<rparr>" ?g "1 / 4" ?g ?g']
  have a3: "spikeFrames [?fi, ?fa, ?fa] sample_spike
            = sample_spike\<lparr>triggered := True, moving := True, moveTimer := 15 / 16,
                            x := 585 / 2\<rparr>"
    using conjunct1[OF t3] by (simp only: m3 x3) simp
  have x4: "spikeX sample_spike 1 = 300"
    using conjunct1[OF conjunct2[OF conjunct2[OF t4]]] o by simp
  have a4: "spikeFrames [?fi, ?fa, ?fa, ?fa] sample_spike
            = sample_spike\<lparr>triggered := True, moveTimer := 1, moving := False, moved := True,
                            x := 300\<rparr>"
    using conjunct1[OF t4] by (simp only: m4 x4) simp
  have b: "spikeFrames ([?fi, ?fa, ?fa, ?fa] @ [(frame_inside, 1 / 60)]) sample_spike
           = spikeFrames [?fi, ?fa, ?fa, ?fa] sample_spike"
    using conjunct1[OF conjunct2[OF conjunct2[OF conjunct2[OF t4]]]] a4 by simp
  have e: "\<bar>moveProgress 0 [1 / 16, 1 / 16, 1 / 16] - 5 * (3 / 16)\<bar> \<le> 3 / 2 ^ 50"
    using conjunct1[OF conjunct2[OF t3]] m3 by simp
  have "resetSpike (sample_spike\<lparr>moved := True\<rparr>) = sample_spike"
    using conjunct1[OF conjunct2[OF conjunct2[OF conjunct2[OF conjunct2[OF t4]]]]]
    by (simp add: sample_spike_def)
  then have r: "spikes (resetPlayer ?g) = [sample_spike]"
    using conjunct1[OF conjunct2[OF conjunct2[OF conjunct2[OF conjunct2[OF conjunct2[OF t4]]]]]]
    by simp
  have w: "spikes (updatePlaying (1 / 16) ?p)
           = [spikeFrame (stepPlayer (1 / 16) ?p, 1 / 16) sample_spike]"
    using conjunct2[OF conjunct2[OF conjunct2[OF conjunct2[OF conjunct2[OF conjunct2[OF
            conjunct2[OF t3]]]]]]] v pf by simp
  from a3 a4 b e r u v w show ?thesis by simp
qed

section \<open>The delta time of the frame loop\<close>

lemma gameLoopDelta_capped_bound: "gameLoopDelta_capped currentTime g = Some d \<Longrightarrow> d \<le> 0.1"
  by (auto simp: gameLoopDelta_capped_def Let_def split: if_splits)

text \<open>
  C8. The frame loop of this version of the game hands \<open>(currentTime - lastTime) / 1000\<close> to
  \<open>update\<close> as it is. Five seconds between two animation-frame callbacks give a delta
  time of 5 s, where the earlier copies of the same function (which clamp, see
  \<open>gameLoopDelta_capped\<close>) give 16.67 ms.
\<close>

theorem gameLoop_delta_is_not_capped:
  "gameLoopDelta 5000 sample_game = Some 5 \<and>
   gameLoopDelta_capped 5000 sample_game = Some (1667 / 100000)"
  by (simp add: gameLoopDelta_def gameLoopDelta_capped_def sample_game_def Let_def)

section \<open>Properties of the level parser\<close>

lemma put6_put6: "put6 (put6 g a) b = put6 g b"
  by (simp add: put6_def)

lemma put6_self: "put6 g g = g"
  by (simp add: put6_def)

lemma put6_agree: "agree6 a b \<Longrightarrow> put6 g a = put6 g b"
  by (simp add: put6_def agree6_def)

lemma parseCell_put6:
  "fst (parseCell ct ctl row col c st) = put6 (fst st) (fst (parseCell ct ctl row col c st))"
  by (simp add: parseCell_def Let_def put6_def)

lemma parseCell_agree:
  "agree6 (fst st) (fst st') \<Longrightarrow> snd st = snd st' \<Longrightarrow>
   agree6 (fst (parseCell ct ctl row col c st)) (fst (parseCell ct ctl row col c st')) \<and>
   snd (parseCell ct ctl row col c st) = snd (parseCell ct ctl row col c st')"
  by (simp add: parseCell_def Let_def agree6_def)

lemma parseRow_put6:
  "fst (parseRow ct ctl row col cs st) = put6 (fst st) (fst (parseRow ct ctl row col cs st))"
proof (induction cs arbitrary: col st)
  case Nil
  show ?case by (simp add: put6_self)
next
  case (Cons c cs)
  let ?st1 = "parseCell ct ctl row col c st"
  have "fst (parseRow ct ctl row (Suc col) cs ?st1)
        = put6 (fst ?st1) (fst (parseRow ct ctl row (Suc col) cs ?st1))"
    by (rule Cons.IH)
  also have "\<dots> = put6 (put6 (fst st) (fst ?st1)) (fst (parseRow ct ctl row (Suc col) cs ?st1))"
    using parseCell_put6[of ct ctl row col c st] by simp
  finally show ?case by (simp add: put6_put6)
qed

lemma parseRow_agree:
  "agree6 (fst st) (fst st') \<Longrightarrow> snd st = snd st' \<Longrightarrow>
   agree6 (fst (parseRow ct ctl row col cs st)) (fst (parseRow ct ctl row col cs st')) \<and>
   snd (parseRow ct ctl row col cs st) = snd (parseRow ct ctl row col cs st')"
proof (induction cs arbitrary: col st st')
  case Nil
  then show ?case by simp
next
  case (Cons c cs)
  from parseCell_agree[OF Cons.prems, of ct ctl row col c]
  show ?case by (simp add: Cons.IH)
qed

lemma parseRows_put6:
  "fst (parseRows ct ctl row ls st) = put6 (fst st) (fst (parseRows ct ctl row ls st))"
proof (induction ls arbitrary: row st)
  case Nil
  show ?case by (simp add: put6_self)
next
  case (Cons l ls)
  let ?st1 = "parseRow ct ctl row 0 l st"
  have "fst (parseRows ct ctl (Suc row) ls ?st1)
        = put6 (fst ?st1) (fst (parseRows ct ctl (Suc row) ls ?st1))"
    by (rule Cons.IH)
  also have "\<dots> = put6 (put6 (fst st) (fst ?st1)) (fst (parseRows ct ctl (Suc row) ls ?st1))"
    using parseRow_put6[of ct ctl row 0 l st] by simp
  finally show ?case by (simp add: put6_put6)
qed

lemma parseRows_agree:
  "agree6 (fst st) (fst st') \<Longrightarrow> snd st = snd st' \<Longrightarrow>
   agree6 (fst (parseRows ct ctl row ls st)) (fst (parseRows ct ctl row ls st')) \<and>
   snd (parseRows ct ctl row ls st) = snd (parseRows ct ctl row ls st')"
proof (induction ls arbitrary: row st st')
  case Nil
  then show ?case by simp
next
  case (Cons l ls)
  from parseRow_agree[OF Cons.prems, of ct ctl row 0 l]
  show ?case by (simp add: Cons.IH)
qed

lemma parseLevel_alt:
  "parseLevel g =
     (case js_index (levels (chapters g)) (currentLevel g) of
        None \<Rightarrow> Inl TypeError
      | Some levelData \<Rightarrow>
          let detectedZones = detectZones (levelMap levelData) (zoneMarkers 0 (levelMap levelData)) {} []
          in if detectedZones = [] then Inr ((put6 g (scanned levelData g))\<lparr>gravityZones := []\<rparr>)
             else case js_index (chapters g) (currentChapter g) of
                    None \<Rightarrow> Inl TypeError
                  | Some chapterData \<Rightarrow>
                      Inr ((put6 g (scanned levelData g))
                             \<lparr>gravityZones := makeZones chapterData levelData 0 detectedZones\<rparr>))"
proof (cases "js_index (levels (chapters g)) (currentLevel g)")
  case None
  then show ?thesis by (simp add: parseLevel_def)
next
  case (Some levelData)
  have "scanned levelData g = put6 (cleared g) (scanned levelData g)"
    unfolding scanned_def using parseRows_put6[of _ _ 0 _ "(cleared g, 0)"] by simp
  then have s: "put6 g (scanned levelData g) = scanned levelData g"
    by (simp add: put6_def cleared_def)
  have "chapters (put6 g (scanned levelData g)) = chapters g"
       "currentChapter (put6 g (scanned levelData g)) = currentChapter g"
    by (simp_all add: put6_def)
  then have ch: "chapters (scanned levelData g) = chapters g"
           "currentChapter (scanned levelData g) = currentChapter g"
    by (simp_all only: s)
  have g2: "fst (parseRows (defined_or (spikeTriggers levelData) [])
            (defined_or (spikeTriggerLengths levelData) []) 0 (levelMap levelData)
            (g\<lparr>platforms := [], fakeBlocks := [], invisiblePlatforms := [], spikes := [],
                 door := None, spawnPoint := None\<rparr>, 0)) = scanned levelData g"
    by (simp add: scanned_def cleared_def)
  have l: "js_index (levels (chapters (g\<lparr>platforms := [], fakeBlocks := [], invisiblePlatforms := [], spikes := [],
                 door := None, spawnPoint := None\<rparr>))) (currentLevel (g\<lparr>platforms := [], fakeBlocks := [], invisiblePlatforms := [], spikes := [],
                 door := None, spawnPoint := None\<rparr>)) = Some levelData"
    using Some by simp
  show ?thesis
    unfolding parseLevel_def Let_def l option.case g2 Some
    by (simp add: ENABLE_GRAVITY_ZONES_def s ch split: option.split)
qed

lemma geometry_put6:
  "geometry ((put6 g r)\<lparr>gravityZones := zs\<rparr>) =
     (platforms r, fakeBlocks r, invisiblePlatforms r, spikes r, door r, spawnPoint r, zs)"
  by (simp add: geometry_def put6_def)

lemma cleared_agree: "canvasHeight h = canvasHeight g \<Longrightarrow> agree6 (cleared h) (cleared g)"
  by (simp add: agree6_def cleared_def)

lemma scanned_agree:
  "canvasHeight h = canvasHeight g \<Longrightarrow> agree6 (scanned levelData h) (scanned levelData g)"
  unfolding scanned_def
  using parseRows_agree[of "(cleared h, 0)" "(cleared g, 0)"]
  by (simp add: cleared_agree)

lemma geometry_agree:
  "agree6 a b \<Longrightarrow> geometry ((put6 h a)\<lparr>gravityZones := zs\<rparr>) = geometry ((put6 g b)\<lparr>gravityZones := zs\<rparr>)"
  by (simp add: geometry_put6 agree6_def)

lemma parse_deterministic:
  assumes "chapters h = chapters g" "currentLevel h = currentLevel g"
    "currentChapter h = currentChapter g" "canvasHeight h = canvasHeight g"
  shows "map_sum id geometry (parseLevel h) = map_sum id geometry (parseLevel g)"
  unfolding parseLevel_alt[of h] parseLevel_alt[of g] assms(1,2,3)
  by (simp add: Let_def geometry_agree[OF scanned_agree[OF assms(4)]] split: option.split)

lemma parse_idempotent:
  assumes "parseLevel g = Inr g1"
  shows "parseLevel g1 = Inr g1 \<and> chapters g1 = chapters g"
proof -
  from assms obtain levelData where ld: "js_index (levels (chapters g)) (currentLevel g) = Some levelData"
    by (cases "js_index (levels (chapters g)) (currentLevel g)") (simp_all add: parseLevel_alt)
  let ?dz = "detectZones (levelMap levelData) (zoneMarkers 0 (levelMap levelData)) {} []"
  obtain zs where g1: "g1 = (put6 g (scanned levelData g))\<lparr>gravityZones := zs\<rparr>"
     and zs: "?dz = [] \<and> zs = [] \<or>
              (?dz \<noteq> [] \<and> (\<exists>cd. js_index (chapters g) (currentChapter g) = Some cd \<and>
                 zs = makeZones cd levelData 0 ?dz))"
    using assms unfolding parseLevel_alt[of g] ld option.case Let_def
    by (auto split: if_splits option.splits)
  have f: "chapters g1 = chapters g" "currentLevel g1 = currentLevel g"
    "currentChapter g1 = currentChapter g" "canvasHeight g1 = canvasHeight g"
    by (simp_all add: g1 put6_def)
  have "put6 g1 (scanned levelData g1) = put6 g1 (scanned levelData g)"
    by (rule put6_agree) (rule scanned_agree[OF f(4)])
  then have e: "(put6 g1 (scanned levelData g1))\<lparr>gravityZones := zs\<rparr> = g1"
    by (simp add: g1 put6_def)
  have "parseLevel g1 = Inr g1"
    unfolding parseLevel_alt[of g1] f ld option.case Let_def
    using zs e by auto
  with f show ?thesis by simp
qed

lemma sample_detect:
  "detectZones (levelMap sample_level) (zoneMarkers 0 (levelMap sample_level)) {} []
     = [\<lparr>minRow = 1, maxRow = 2, minCol = 3, maxCol = 3\<rparr>]"
  by (simp add: sample_level_def isZoneChar_def floodFill.simps[of _ "_ # _"] floodFill.simps[of _ "[]"]
        adjacent_def inGrid_def Let_def)

lemma sample_scanned:
  "scanned sample_level sample_game =
     sample_game\<lparr>platforms := [\<lparr>x = 0, y = 120, width = 60, height = 60\<rparr>,
                                \<lparr>x = 60, y = 120, width = 60, height = 60\<rparr>],
                  spikes := sample_spikes,
                  door := Some \<lparr>x = 240, y = 120, width = 60, height = 60\<rparr>,
                  spawnPoint := Some (15, 60)\<rparr>"
  by (simp add: scanned_def cleared_def sample_level_def sample_game_def parseCell_def
        makeSpike_def isDigit_def parseInt_def js_index_def defined_or_def TILE_SIZE_def
        defaultTriggerOffset_def sample_spikes_def Let_def)

lemma sample_makeZones:
  "makeZones sample_chapter sample_level 0 [\<lparr>minRow = 1, maxRow = 2, minCol = 3, maxCol = 3\<rparr>]
     = [sample_zone]"
  by (simp add: makeZone_def zoneConfigFor_def sample_chapter_def sample_level_def js_index_def
        emptyConfig_def str_or_def num_or_def defined_or_def bool_or_false_def visual_field_def
        sound_field_def TILE_SIZE_def sample_zone_def Let_def)

lemma sample_parse: "parseLevel sample_game = Inr sample_parsed"
proof -
  have l: "js_index (levels (chapters sample_game)) (currentLevel sample_game) = Some sample_level"
    by (simp add: sample_game_def levels_def sample_chapter_def js_index_def)
  have c: "js_index (chapters sample_game) (currentChapter sample_game) = Some sample_chapter"
    by (simp add: sample_game_def js_index_def)
  have p: "put6 sample_game (scanned sample_level sample_game) = scanned sample_level sample_game"
    unfolding sample_scanned by (simp add: put6_def)
  show ?thesis
    unfolding parseLevel_alt l c option.case Let_def sample_detect p sample_makeZones
    by (simp add: sample_scanned sample_parsed_def)
qed

lemma parseCell_canvas: "canvasHeight (fst (parseCell ct ctl row col c st)) = canvasHeight (fst st)"
  by (simp add: parseCell_def Let_def)

lemma parseCell_order:
  assumes "spikes_in_discovery_order ct ctl st"
  shows "spikes_in_discovery_order ct ctl (parseCell ct ctl row col c st)"
proof (cases "c \<noteq> CHR ''#'' \<and> c \<noteq> CHR ''F'' \<and> c \<noteq> CHR ''I'' \<and> (isDigit c \<or> c = CHR ''^'')")
  case True
  then have e: "parseCell ct ctl row col c st =
      ((fst st)\<lparr>spikes := spikes (fst st) @
                 [makeSpike (canvasHeight (fst st)) ct ctl (snd st)
                    (real col * TILE_SIZE) (real row * TILE_SIZE) c]\<rparr>, snd st + 1)"
    by (simp add: parseCell_def Let_def)
  show ?thesis
    unfolding e using assms
    by (auto simp: spikes_in_discovery_order_def nth_append less_Suc_eq)
next
  case False
  then have "spikes (fst (parseCell ct ctl row col c st)) = spikes (fst st)"
    "snd (parseCell ct ctl row col c st) = snd st"
    by (auto simp: parseCell_def Let_def)
  then show ?thesis
    using assms by (simp add: spikes_in_discovery_order_def parseCell_canvas)
qed

lemma parseRow_order:
  "spikes_in_discovery_order ct ctl st \<Longrightarrow>
   spikes_in_discovery_order ct ctl (parseRow ct ctl row col cs st)"
  by (induction cs arbitrary: col st) (simp_all add: parseCell_order)

lemma parseRows_order:
  "spikes_in_discovery_order ct ctl st \<Longrightarrow>
   spikes_in_discovery_order ct ctl (parseRows ct ctl row ls st)"
  by (induction ls arbitrary: row st) (simp_all add: parseRow_order)

lemma scanned_canvas: "canvasHeight (scanned levelData g) = canvasHeight g"
proof -
  have "canvasHeight (put6 (cleared g) r) = canvasHeight g" for r
    by (simp add: put6_def cleared_def)
  then show ?thesis
    unfolding scanned_def using parseRows_put6[of _ _ 0 _ "(cleared g, 0)"] by (metis fst_conv)
qed

lemma scanned_spikes:
  assumes "i < length (spikes (scanned levelData g))"
  shows "\<exists>tx ty c. spikes (scanned levelData g) ! i =
           makeSpike (canvasHeight g) (defined_or (spikeTriggers levelData) [])
             (defined_or (spikeTriggerLengths levelData) []) i tx ty c"
proof -
  have "spikes_in_discovery_order (defined_or (spikeTriggers levelData) [])
          (defined_or (spikeTriggerLengths levelData) []) (cleared g, 0)"
    by (simp add: spikes_in_discovery_order_def cleared_def)
  from parseRows_order[OF this, of 0 "levelMap levelData"] assms
  show ?thesis
    unfolding spikes_in_discovery_order_def scanned_def[symmetric]
    using scanned_canvas[of levelData g]
    by (simp add: scanned_def)
qed

lemma makeSpike_default_offset:
  "js_index ct i = None \<Longrightarrow>
   triggerOffset (makeSpike ch ct ctl i tx ty c) = - 0.5 \<and>
   triggerX (makeSpike ch ct ctl i tx ty c) = x (makeSpike ch ct ctl i tx ty c) + 0.5 * TILE_SIZE"
  by (simp add: makeSpike_def Let_def defaultTriggerOffset_def split: prod.split)

lemma makeSpike_default_window:
  "js_index ctl i = None \<or> js_index ctl i = Some None \<Longrightarrow>
   triggerY (makeSpike ch ct ctl i tx ty c) = 0 \<and>
   triggerHeight (makeSpike ch ct ctl i tx ty c) = ch"
  by (auto simp: makeSpike_def Let_def split: prod.split)

lemma parsed_spikes:
  assumes "parseLevel g = Inr g'"
    and "js_index (levels (chapters g)) (currentLevel g) = Some levelData"
  shows "spikes g' = spikes (scanned levelData g)"
  using assms(1) unfolding parseLevel_alt[of g] assms(2) option.case Let_def
  by (auto simp: put6_def split: if_splits option.splits)

text \<open>
  C6. After a parse, the spike at position \<open>i\<close> of \<open>spikes\<close> is the one discovered with
  \<open>spikeIndex = i\<close>. When \<open>spikeTriggers\<close> has no entry \<open>i\<close> (the array is absent or too
  short), its trigger offset is -0.5 and its trigger line is at \<open>x + 0.5 * TILE_SIZE\<close>;
  when \<open>spikeTriggerLengths\<close> has no entry \<open>i\<close> or the entry is \<open>null\<close>, its trigger window
  is \<open>triggerY = 0\<close>, \<open>triggerHeight = canvas.height\<close>. Each fallback is taken on its own.
\<close>

theorem missing_overrides_use_defaults:
  assumes "parseLevel g = Inr g'"
    and "js_index (levels (chapters g)) (currentLevel g) = Some levelData"
    and "i < length (spikes g')"
  shows "(js_index (defined_or (spikeTriggers levelData) []) i = None \<longrightarrow>
            triggerOffset (spikes g' ! i) = - 0.5 \<and>
            triggerX (spikes g' ! i) = x (spikes g' ! i) + 0.5 * TILE_SIZE) \<and>
         (js_index (defined_or (spikeTriggerLengths levelData) []) i = None \<or>
          js_index (defined_or (spikeTriggerLengths levelData) []) i = Some None \<longrightarrow>
            triggerY (spikes g' ! i) = 0 \<and> triggerHeight (spikes g' ! i) = canvasHeight g)"
proof -
  note sp = parsed_spikes[OF assms(1,2)]
  from scanned_spikes[of i levelData g] assms(3) sp
  obtain tx ty c where e: "spikes g' ! i =
      makeSpike (canvasHeight g) (defined_or (spikeTriggers levelData) [])
        (defined_or (spikeTriggerLengths levelData) []) i tx ty c"
    by auto
  show ?thesis
    unfolding e using makeSpike_default_offset makeSpike_default_window by blast
qed

theorem missing_overrides_use_defaults_witness:
  "parseLevel sample_game = Inr sample_parsed \<and>
   js_index (levels (chapters sample_game)) (currentLevel sample_game) = Some sample_level \<and>
   1 < length (spikes sample_parsed) \<and>
   js_index (defined_or (spikeTriggers sample_level) []) 1 = None \<and>
   js_index (defined_or (spikeTriggerLengths sample_level) []) 1 = None \<and>
   js_index (defined_or (spikeTriggerLengths sample_level) []) 0 = Some None \<and>
   triggerOffset (spikes sample_parsed ! 1) = - 0.5 \<and>
   triggerX (spikes sample_parsed ! 1) = x (spikes sample_parsed ! 1) + 30 \<and>
   triggerY (spikes sample_parsed ! 1) = 0 \<and>
   triggerHeight (spikes sample_parsed ! 1) = 600 \<and>
   triggerY (spikes sample_parsed ! 0) = 0 \<and>
   triggerHeight (spikes sample_parsed ! 0) = 600"
proof -
  have l: "js_index (levels (chapters sample_game)) (currentLevel sample_game) = Some sample_level"
    by (simp add: sample_game_def levels_def sample_chapter_def js_index_def)
  have n: "1 < length (spikes sample_parsed)" "0 < length (spikes sample_parsed)"
    by (simp_all add: sample_parsed_def sample_spikes_def)
  have m: "js_index (defined_or (spikeTriggers sample_level) []) 1 = None"
    "js_index (defined_or (spikeTriggerLengths sample_level) []) 1 = None"
    "js_index (defined_or (spikeTriggerLengths sample_level) []) 0 = Some None"
    by (simp_all add: sample_level_def defined_or_def js_index_def)
  have c: "canvasHeight sample_game = 600" by (simp add: sample_game_def)
  from missing_overrides_use_defaults[OF sample_parse l n(1)]
       missing_overrides_use_defaults[OF sample_parse l n(2)] sample_parse l n(1) m c
  show ?thesis by (simp add: TILE_SIZE_def)
qed

text \<open>
  C7. \<open>parseLevel\<close> assigns fresh lists before it reads the level, so what it builds
  depends only on the level tables, the level and chapter indices and the canvas height:
  two states that agree on these get the same platforms, fake blocks, invisible platforms,
  spikes, door, spawn point and gravity zones (or the same exception), whatever their
  lists held before. Parsing the result of a parse again returns that very state, and the
  level tables with their override arrays are the same afterwards.
\<close>

theorem parse_is_deterministic_and_idempotent:
  assumes "chapters h = chapters g" "currentLevel h = currentLevel g"
    "currentChapter h = currentChapter g" "canvasHeight h = canvasHeight g"
  shows "map_sum id geometry (parseLevel h) = map_sum id geometry (parseLevel g) \<and>
         (parseLevel g = Inr g1 \<longrightarrow> parseLevel g1 = Inr g1 \<and> chapters g1 = chapters g)"
  using parse_deterministic[OF assms] parse_idempotent[of g g1] by blast

theorem parse_is_deterministic_and_idempotent_witness:
  "parseLevel sample_game = Inr sample_parsed \<and>
   parseLevel sample_parsed = Inr sample_parsed \<and>
   chapters sample_parsed = chapters sample_game \<and>
   map_sum id geometry
     (parseLevel (sample_game\<lparr>platforms := [sample_platform], spikes := [sample_spike],
                              gravityZones := [sample_zone\<lparr>hasActivated := True\<rparr>],
                              levelTime := 3\<rparr>))
     = Inr (geometry sample_parsed)"
proof -
  let ?h = "sample_game\<lparr>platforms := [sample_platform], spikes := [sample_spike],
                        gravityZones := [sample_zone\<lparr>hasActivated := True\<rparr>],
                        levelTime := 3\<rparr>"
  have a: "chapters ?h = chapters sample_game" "currentLevel ?h = currentLevel sample_game"
    "currentChapter ?h = currentChapter sample_game" "canvasHeight ?h = canvasHeight sample_game"
    by simp_all
  from parse_is_deterministic_and_idempotent[OF a, of sample_parsed] sample_parse
  show ?thesis by simp
qed

section \<open>Properties of the physics step\<close>

lemma timers_keep:
  "x (updateGravityTimers dt p) = x p \<and> y (updateGravityTimers dt p) = y p \<and>
   width (updateGravityTimers dt p) = width p \<and> height (updateGravityTimers dt p) = height p \<and>
   vx (updateGravityTimers dt p) = vx p \<and> vy (updateGravityTimers dt p) = vy p \<and>
   onGround (updateGravityTimers dt p) = onGround p \<and>
   hasJumped (updateGravityTimers dt p) = hasJumped p \<and>
   (gravityScale p = 1 \<longrightarrow> gravityScale (updateGravityTimers dt p) = 1)"
  by (simp add: updateGravityTimers_def Let_def)

lemma controls_idle:
  assumes "\<not> left ks" "\<not> right ks" "\<not> (space ks \<and> onGround p \<and> \<not> hasJumped p)"
  shows "x (applyControls ks p) = x p \<and> y (applyControls ks p) = y p \<and>
   width (applyControls ks p) = width p \<and> height (applyControls ks p) = height p \<and>
   vx (applyControls ks p) = 0 \<and> vy (applyControls ks p) = vy p \<and>
   onGround (applyControls ks p) = onGround p \<and>
   gravityScale (applyControls ks p) = gravityScale p"
  using assms by (auto simp: applyControls_def Let_def)

lemma gravity_keep:
  "x (applyGravity dt p) = x p \<and> y (applyGravity dt p) = y p \<and>
   width (applyGravity dt p) = width p \<and> height (applyGravity dt p) = height p \<and>
   vx (applyGravity dt p) = vx p \<and> vy (applyGravity dt p) = vy p + GRAVITY * gravityScale p * dt \<and>
   onGround (applyGravity dt p) = onGround p \<and>
   gravityScale (applyGravity dt p) = gravityScale p"
  by (simp add: applyGravity_def Let_def)

lemma moveHorizontal_still:
  "vx p = 0 \<Longrightarrow> 0 \<le> x p \<Longrightarrow> x p + width p \<le> cw \<Longrightarrow> moveHorizontal cw dt p = p"
  by (simp add: moveHorizontal_def Let_def)

lemma resolveVertical_append:
  "resolveVertical (as @ bs) p = resolveVertical bs (resolveVertical as p)"
  by (simp add: resolveVertical_def)

lemma resolveVertical_Cons:
  "resolveVertical (a # as) p = resolveVertical as (resolveVertical1 a p)"
  by (simp add: resolveVertical_def)

lemma landing:
  assumes "0 < vy q" "0 < gravityScale q"
    and "\<forall>Q \<in> set solids. checkCollision q Q \<longrightarrow> y Q = c"
  shows "resolveVertical solids q =
     (if \<exists>Q \<in> set solids. checkCollision q Q
      then q\<lparr>y := c - height q, vy := 0, onGround := True\<rparr> else q)"
  using assms(3)
proof (induction solids)
  case Nil
  show ?case by (simp add: resolveVertical_def)
next
  case (Cons a as)
  show ?case
  proof (cases "checkCollision q a")
    case True
    then have "y a = c" using Cons.prems by simp
    then have "resolveVertical1 a q = q\<lparr>y := c - height q, vy := 0, onGround := True\<rparr>"
      using True assms(1,2) by (simp add: resolveVertical1_def)
    then show ?thesis
      using True by (simp add: resolveVertical_Cons resolveVertical_still)
  next
    case False
    then have "resolveVertical1 a q = q" by (simp add: resolveVertical1_def)
    then show ?thesis
      using False Cons by (simp add: resolveVertical_Cons)
  qed
qed

lemma die_player: "player (die g) = player g"
  by (simp add: die_def)

lemma completeLevel_player: "player (completeLevel g) = player g"
  by (simp add: completeLevel_def markLevelComplete_def Let_def)

lemma foldl_die_player:
  "player (foldl (\<lambda>h spike. if checkCollision (player h) spike then die h else h) g ss) = player g"
  by (induction ss arbitrary: g) (simp_all add: die_player)

lemma updatePlaying_player:
  "player (updatePlaying dt g) = snd (checkGravityZones dt (gravityZones g) (stepPlayer dt g))"
proof -
  let ?g1 = "if \<not> isDead g then g\<lparr>levelTime := levelTime g + dt\<rparr> else g"
  have p: "stepPlayer dt ?g1 = stepPlayer dt g" by (simp add: stepPlayer_levelTime)
  have z1: "gravityZones ?g1 = gravityZones g" by simp
  obtain zs pz where z: "checkGravityZones dt (gravityZones g) (stepPlayer dt g) = (zs, pz)"
    by (cases "checkGravityZones dt (gravityZones g) (stepPlayer dt g)")
  show ?thesis
    unfolding updatePlaying_def Let_def p z1
    by (simp add: z ENABLE_GRAVITY_ZONES_def die_player completeLevel_player foldl_die_player
          split: option.split)
qed

lemma update_playing:
  "transitionState g = NoTransition \<Longrightarrow> gameState g = Some Playing \<Longrightarrow> \<not> isDead g \<Longrightarrow>
   \<not> isPaused g \<Longrightarrow> update dt g = Inr (updatePlaying dt g)"
  by (simp add: update_def)

lemma checkCollision_box:
  "x a = x b \<Longrightarrow> y a = y b \<Longrightarrow> width a = width b \<Longrightarrow> height a = height b \<Longrightarrow>
   checkCollision a Q = checkCollision b Q"
  by (simp add: checkCollision_def)

lemma stepPlayer_rest:
  assumes input: "\<not> left (keys g)" "\<not> right (keys g)"
      "\<not> (space (keys g) \<and> \<not> hasJumped (player g))"
    and rest: "P \<in> set (platforms g @ invisiblePlatforms g)"
      "y (player g) + height (player g) = y P"
      "x (player g) < x P + width P" "x P < x (player g) + width (player g)"
      "vy (player g) = 0" "onGround (player g)" "gravityScale (player g) = 1"
    and inside: "0 \<le> x (player g)" "x (player g) + width (player g) \<le> canvasWidth g"
    and dt: "0 < dt" "GRAVITY * dt * dt < height (player g) + height P"
    and others: "\<forall>Q \<in> set (platforms g @ invisiblePlatforms g).
        checkCollision ((player g)\<lparr>y := y (player g) + GRAVITY * dt * dt\<rparr>) Q \<longrightarrow> y Q = y P"
  shows "vy (applyGravity dt (applyControls (keys g) (updateGravityTimers dt (player g))))
           = GRAVITY * dt \<and>
         y (stepPlayer dt g) = y (player g) \<and> vy (stepPlayer dt g) = 0 \<and>
         onGround (stepPlayer dt g)"
proof -
  let ?p = "player g"
  define p0 where "p0 = updateGravityTimers dt ?p"
  define p1 where "p1 = applyControls (keys g) p0"
  define p2 where "p2 = applyGravity dt p1"
  define p6 where "p6 = moveVertical dt p2"
  have f0: "x p0 = x ?p" "y p0 = y ?p" "width p0 = width ?p" "height p0 = height ?p"
    "vy p0 = 0" "onGround p0" "hasJumped p0 = hasJumped ?p" "gravityScale p0 = 1"
    unfolding p0_def using timers_keep[of dt ?p] rest by simp_all
  have nj: "\<not> (space (keys g) \<and> onGround p0 \<and> \<not> hasJumped p0)"
    using input(3) f0 by simp
  have f1: "x p1 = x ?p" "y p1 = y ?p" "width p1 = width ?p" "height p1 = height ?p"
    "vx p1 = 0" "vy p1 = 0" "gravityScale p1 = 1"
    unfolding p1_def using controls_idle[OF input(1,2) nj] f0 by simp_all
  have f2: "x p2 = x ?p" "y p2 = y ?p" "width p2 = width ?p" "height p2 = height ?p"
    "vx p2 = 0" "vy p2 = GRAVITY * dt" "gravityScale p2 = 1"
    unfolding p2_def using gravity_keep[of dt p1] f1 by simp_all
  have m: "moveHorizontal (canvasWidth g) dt p2 = p2"
    by (rule moveHorizontal_still) (use f2 inside in simp_all)
  have f6: "x p6 = x ?p" "y p6 = y ?p + GRAVITY * dt * dt" "width p6 = width ?p"
    "height p6 = height ?p" "vy p6 = GRAVITY * dt" "gravityScale p6 = 1"
    unfolding p6_def using f2 by (simp_all add: moveVertical_def)
  have st: "stepPlayer dt g = resolveVertical (platforms g @ invisiblePlatforms g) p6"
    unfolding stepPlayer_def Let_def
    by (simp add: ENABLE_GRAVITY_ZONES_def p0_def[symmetric] p1_def[symmetric]
          p2_def[symmetric] m resolveHorizontal_still f2 p6_def[symmetric]
          resolveVertical_append)
  have G: "0 < GRAVITY * dt" "0 < GRAVITY * dt * dt"
    using dt(1) by (simp_all add: GRAVITY_def)
  have box: "checkCollision p6 Q = checkCollision (?p\<lparr>y := y ?p + GRAVITY * dt * dt\<rparr>) Q" for Q
    by (rule checkCollision_box) (simp_all add: f6)
  have oth: "\<forall>Q \<in> set (platforms g @ invisiblePlatforms g). checkCollision p6 Q \<longrightarrow> y Q = y P"
    using others by (simp only: box)
  have hit: "checkCollision p6 P"
    unfolding checkCollision_def f6 using rest dt(2) G(2) by simp
  have "resolveVertical (platforms g @ invisiblePlatforms g) p6 =
     (if \<exists>Q \<in> set (platforms g @ invisiblePlatforms g). checkCollision p6 Q
      then p6\<lparr>y := y P - height p6, vy := 0, onGround := True\<rparr> else p6)"
    by (rule landing) (use G f6 oth in simp_all)
  also have "\<dots> = p6\<lparr>y := y P - height p6, vy := 0, onGround := True\<rparr>"
    using hit rest(1) by auto
  finally have r: "stepPlayer dt g = p6\<lparr>y := y P - height p6, vy := 0, onGround := True\<rparr>"
    by (simp only: st)
  have "y P - height p6 = y ?p" using rest(2) f6 by simp
  then show ?thesis
    using f2 by (simp add: r p2_def p1_def p0_def)
qed

lemma resting_fields:
  "player resting_game = sample_player\<lparr>y := 75, onGround := True\<rparr>"
  "keys resting_game = \<lparr>left = False, right = False, space = False\<rparr>"
  "canvasWidth resting_game = 1200"
  "platforms resting_game = [sample_platform]"
  "invisiblePlatforms resting_game = []"
  "gravityZones resting_game = []"
  "transitionState resting_game = NoTransition" "gameState resting_game = Some Playing"
  "\<not> isDead resting_game" "\<not> isPaused resting_game"
  by (simp_all add: resting_game_def sample_game_def)

lemma resting_fall:
  "stepPlayer (1 / 5) resting_game =
     sample_player\<lparr>y := 201, vy := 630, onGround := False\<rparr>"
proof -
  let ?p = "sample_player\<lparr>y := 75, onGround := True\<rparr>"
  have a: "updateGravityTimers (1 / 5) ?p = ?p"
    by (simp add: updateGravityTimers_def sample_player_def)
  have b: "applyControls \<lparr>left = False, right = False, space = False\<rparr> ?p = ?p"
    by (simp add: applyControls_def sample_player_def)
  have c: "applyGravity (1 / 5) ?p = ?p\<lparr>vy := 630\<rparr>"
    by (simp add: applyGravity_def GRAVITY_def sample_player_def)
  have d: "moveHorizontal 1200 (1 / 5) (?p\<lparr>vy := 630\<rparr>) = ?p\<lparr>vy := 630\<rparr>"
    by (rule moveHorizontal_still) (simp_all add: sample_player_def)
  have e: "resolveHorizontal solids (?p\<lparr>vy := 630\<rparr>) = ?p\<lparr>vy := 630\<rparr>" for solids
    by (rule resolveHorizontal_still) (simp add: sample_player_def)
  have f: "moveVertical (1 / 5) (?p\<lparr>vy := 630\<rparr>) = sample_player\<lparr>y := 201, vy := 630, onGround := False\<rparr>"
    by (simp add: moveVertical_def sample_player_def)
  have n: "\<not> checkCollision (sample_player\<lparr>y := 201, vy := 630, onGround := False\<rparr>) sample_platform"
    by (simp add: checkCollision_def sample_player_def sample_platform_def)
  have g: "resolveVertical [sample_platform] (sample_player\<lparr>y := 201, vy := 630, onGround := False\<rparr>)
           = sample_player\<lparr>y := 201, vy := 630, onGround := False\<rparr>"
    using n by (simp add: resolveVertical_def resolveVertical1_def)
  have h: "resolveVertical [] q = q" for q by (simp add: resolveVertical_def)
  show ?thesis
    unfolding stepPlayer_def Let_def resting_fields ENABLE_GRAVITY_ZONES_def if_True a b c d e f g h
    by (rule refl)
qed

text \<open>
  C4, as stated, fails for "any dt > 0": the step is \<open>y += vy * dt\<close> with
  \<open>vy = GRAVITY * dt\<close>, so a frame of 0.2 s moves the resting player 126 px down, past
  the 60 px tile it stands on; no overlap is found and it keeps falling.
\<close>

theorem resting_actor_falls_through_counterexample:
  "y (player resting_game) + height (player resting_game) = y sample_platform \<and>
   x (player resting_game) < x sample_platform + width sample_platform \<and>
   x sample_platform < x (player resting_game) + width (player resting_game) \<and>
   vy (player resting_game) = 0 \<and> onGround (player resting_game) \<and>
   gravityScale (player resting_game) = 1 \<and>
   \<not> left (keys resting_game) \<and> \<not> right (keys resting_game) \<and>
   update (1 / 5) resting_game = Inr (updatePlaying (1 / 5) resting_game) \<and>
   y (player (updatePlaying (1 / 5) resting_game)) = 201 \<and>
   vy (player (updatePlaying (1 / 5) resting_game)) = 630 \<and>
   \<not> onGround (player (updatePlaying (1 / 5) resting_game))"
proof -
  have u: "update (1 / 5) resting_game = Inr (updatePlaying (1 / 5) resting_game)"
    by (rule update_playing) (simp_all add: resting_fields)
  have p: "player (updatePlaying (1 / 5) resting_game)
           = sample_player\<lparr>y := 201, vy := 630, onGround := False\<rparr>"
    by (simp add: updatePlaying_player resting_fields resting_fall)
  show ?thesis
    unfolding p by (simp add: u resting_fields sample_player_def sample_platform_def)
qed

text \<open>
  C4, amended. The player rests exactly on top of a solid \<open>P\<close> (a platform or an
  invisible platform: \<open>y + height = P.y\<close>, horizontal overlap, \<open>vy = 0\<close>, \<open>onGround\<close>),
  inside the canvas, under normal gravity, with no left or right key held and no jump
  started. Then for one frame of the playing state with \<open>dt > 0\<close> and
  \<open>GRAVITY * dt * dt < height + P.height\<close>, provided every solid that the dropped player
  overlaps has its top at the height of \<open>P\<close>: the velocity after gravity is
  \<open>GRAVITY * dt\<close>, and the frame ends with \<open>y\<close> unchanged, \<open>vy = 0\<close> and \<open>onGround\<close> true.
\<close>

theorem resting_actor_stays_on_platform:
  assumes playing: "transitionState g = NoTransition" "gameState g = Some Playing"
      "\<not> isDead g" "\<not> isPaused g"
    and input: "\<not> left (keys g)" "\<not> right (keys g)"
      "\<not> (space (keys g) \<and> \<not> hasJumped (player g))"
    and rest: "P \<in> set (platforms g @ invisiblePlatforms g)"
      "y (player g) + height (player g) = y P"
      "x (player g) < x P + width P" "x P < x (player g) + width (player g)"
      "vy (player g) = 0" "onGround (player g)" "gravityScale (player g) = 1"
    and inside: "0 \<le> x (player g)" "x (player g) + width (player g) \<le> canvasWidth g"
    and dt: "0 < dt" "GRAVITY * dt * dt < height (player g) + height P"
    and others: "\<forall>Q \<in> set (platforms g @ invisiblePlatforms g).
        checkCollision ((player g)\<lparr>y := y (player g) + GRAVITY * dt * dt\<rparr>) Q \<longrightarrow> y Q = y P"
  shows "update dt g = Inr (updatePlaying dt g) \<and>
         vy (applyGravity dt (applyControls (keys g) (updateGravityTimers dt (player g))))
           = GRAVITY * dt \<and>
         y (player (updatePlaying dt g)) = y (player g) \<and>
         vy (player (updatePlaying dt g)) = 0 \<and>
         onGround (player (updatePlaying dt g))"
proof -
  note s = stepPlayer_rest[OF input rest inside dt others]
  have k: "player_kept (stepPlayer dt g) (player (updatePlaying dt g))"
    unfolding updatePlaying_player by (rule player_kept_zones_loop)
  show ?thesis
    using s k update_playing[OF playing, of dt] by (simp add: player_kept_def)
qed

theorem resting_actor_stays_on_platform_witness:
  "y (player resting_game) + height (player resting_game) = y sample_platform \<and>
   vy (player resting_game) = 0 \<and> onGround (player resting_game) \<and>
   gravityScale (player resting_game) = 1 \<and>
   GRAVITY * (1 / 60) * (1 / 60) < height (player resting_game) + height sample_platform \<and>
   update (1 / 60) resting_game = Inr (updatePlaying (1 / 60) resting_game) \<and>
   y (player (updatePlaying (1 / 60) resting_game)) = 75 \<and>
   vy (player (updatePlaying (1 / 60) resting_game)) = 0 \<and>
   onGround (player (updatePlaying (1 / 60) resting_game))"
proof -
  have playing: "transitionState resting_game = NoTransition" "gameState resting_game = Some Playing"
      "\<not> isDead resting_game" "\<not> isPaused resting_game"
    by (simp_all add: resting_fields)
  have input: "\<not> left (keys resting_game)" "\<not> right (keys resting_game)"
      "\<not> (space (keys resting_game) \<and> \<not> hasJumped (player resting_game))"
    by (simp_all add: resting_fields)
  have rest: "sample_platform \<in> set (platforms resting_game @ invisiblePlatforms resting_game)"
      "y (player resting_game) + height (player resting_game) = y sample_platform"
      "x (player resting_game) < x sample_platform + width sample_platform"
      "x sample_platform < x (player resting_game) + width (player resting_game)"
      "vy (player resting_game) = 0" "onGround (player resting_game)"
      "gravityScale (player resting_game) = 1"
    by (simp_all add: resting_fields sample_player_def sample_platform_def)
  have inside: "0 \<le> x (player resting_game)"
      "x (player resting_game) + width (player resting_game) \<le> canvasWidth resting_game"
    by (simp_all add: resting_fields sample_player_def)
  have dt: "0 < (1 / 60 :: real)"
      "GRAVITY * (1 / 60) * (1 / 60) < height (player resting_game) + height sample_platform"
    by (simp_all add: resting_fields sample_player_def sample_platform_def GRAVITY_def)
  have others: "\<forall>Q \<in> set (platforms resting_game @ invisiblePlatforms resting_game).
        checkCollision ((player resting_game)\<lparr>y := y (player resting_game) + GRAVITY * (1 / 60) * (1 / 60)\<rparr>) Q
          \<longrightarrow> y Q = y sample_platform"
    by (simp add: resting_fields)
  have y0: "y (player resting_game) = 75"
    by (simp add: resting_fields)
  from resting_actor_stays_on_platform[OF playing input rest inside dt others] rest dt(2) y0
  show ?thesis by simp
qed

end
